theory Spec2Isabelle
  imports Complex_Main "HOL-Library.AList"
begin

section \<open>JavaScript values\<close>

text \<open>
  The background script of the extension is TypeScript whose inputs (messages, stored
  items) are typed \<^verbatim>\<open>any\<close>, so the checks it performs are run-time checks on
  untyped values. A value is modelled by \<open>jsval\<close>; a number is a real, or one of NaN
  and the two infinities. The script does no arithmetic on volumes, only comparisons,
  so rounding plays no part.
\<close>

datatype jsval =
    JUndefined
  | JNull
  | JBool bool
  | JNum real
  | JNaN
  | JPosInf
  | JNegInf
  | JStr string
  | JObj "(string \<times> jsval) list"

text \<open>\<^verbatim>\<open>!v\<close> is \<open>\<not> truthy v\<close>.\<close>

fun truthy :: "jsval \<Rightarrow> bool" where
  "truthy JUndefined = False"
| "truthy JNull = False"
| "truthy (JBool b) = b"
| "truthy (JNum x) = (x \<noteq> 0)"
| "truthy JNaN = False"
| "truthy JPosInf = True"
| "truthy JNegInf = True"
| "truthy (JStr s) = (s \<noteq> [])"
| "truthy (JObj kvs) = True"

text \<open>\<^verbatim>\<open>typeof v === "number"\<close>, \<^verbatim>\<open>"boolean"\<close>, \<^verbatim>\<open>"string"\<close>, \<^verbatim>\<open>"object"\<close>
  (\<^verbatim>\<open>typeof null\<close> is \<^verbatim>\<open>"object"\<close>).\<close>

fun typeof_number :: "jsval \<Rightarrow> bool" where
  "typeof_number (JNum x) = True"
| "typeof_number JNaN = True"
| "typeof_number JPosInf = True"
| "typeof_number JNegInf = True"
| "typeof_number v = False"

fun typeof_boolean :: "jsval \<Rightarrow> bool" where
  "typeof_boolean (JBool b) = True"
| "typeof_boolean v = False"

fun typeof_string :: "jsval \<Rightarrow> bool" where
  "typeof_string (JStr s) = True"
| "typeof_string v = False"

fun typeof_object :: "jsval \<Rightarrow> bool" where
  "typeof_object (JObj kvs) = True"
| "typeof_object JNull = True"
| "typeof_object v = False"

text \<open>\<^verbatim>\<open>isNaN\<close> and the comparisons with a constant. The script applies them to
  numbers only (after \<^verbatim>\<open>typeof v === "number"\<close>, or to the result of
  \<^verbatim>\<open>parseInt\<close>), so no coercion of other values is modelled.\<close>

fun js_isNaN :: "jsval \<Rightarrow> bool" where
  "js_isNaN JNaN = True"
| "js_isNaN v = False"

fun js_gt :: "jsval \<Rightarrow> real \<Rightarrow> bool" where
  "js_gt (JNum x) c = (x > c)"
| "js_gt JPosInf c = True"
| "js_gt v c = False"

fun js_ge :: "jsval \<Rightarrow> real \<Rightarrow> bool" where
  "js_ge (JNum x) c = (x \<ge> c)"
| "js_ge JPosInf c = True"
| "js_ge v c = False"

fun js_le :: "jsval \<Rightarrow> real \<Rightarrow> bool" where
  "js_le (JNum x) c = (x \<le> c)"
| "js_le JNegInf c = True"
| "js_le v c = False"

text \<open>Property access \<^verbatim>\<open>v.k\<close>: an absent property reads as \<^verbatim>\<open>undefined\<close>.\<close>

fun fld :: "jsval \<Rightarrow> string \<Rightarrow> jsval" where
  "fld (JObj kvs) k = (case map_of kvs k of Some v \<Rightarrow> v | None \<Rightarrow> JUndefined)"
| "fld v k = JUndefined"

section \<open>Validators and the volume record\<close>

definition MAX_RETRIES :: nat where
  "MAX_RETRIES = 3"

definition MAX_QUEUE_SIZE :: nat where
  "MAX_QUEUE_SIZE = 50"

text \<open>The interface \<^verbatim>\<open>TabVolumeData\<close>. Its fields hold whatever value was written,
  so they are \<open>jsval\<close>; the optional fields are \<open>JUndefined\<close> when absent.\<close>

record TabVolumeData =
  volume :: jsval
  previousVolume :: jsval
  muted :: jsval
  hasAudio :: jsval
  isPlaying :: jsval
  tabUrl :: jsval

definition isValidVolume :: "jsval \<Rightarrow> bool" where
  "isValidVolume v = (typeof_number v \<and> \<not> js_isNaN v \<and> js_ge v 0 \<and> js_le v 100)"

definition isValidTabId :: "jsval \<Rightarrow> bool" where
  "isValidTabId tabId = (typeof_number tabId \<and> \<not> js_isNaN tabId \<and> js_gt tabId 0)"

definition getDefaultVolumeData :: TabVolumeData where
  "getDefaultVolumeData =
     \<lparr> volume = JNum 100, previousVolume = JNum 100, muted = JBool False,
       hasAudio = JBool True, isPlaying = JUndefined, tabUrl = JUndefined \<rparr>"

definition validateVolumeData :: "jsval \<Rightarrow> TabVolumeData" where
  "validateVolumeData data =
     (let defaultData = getDefaultVolumeData in
      if \<not> truthy data \<or> \<not> typeof_object data then defaultData
      else
        \<lparr> volume = (if isValidVolume (fld data ''volume'') then fld data ''volume''
                    else volume defaultData),
          previousVolume = (if isValidVolume (fld data ''previousVolume'')
                            then fld data ''previousVolume''
                            else previousVolume defaultData),
          muted = (if typeof_boolean (fld data ''muted'') then fld data ''muted''
                   else muted defaultData),
          hasAudio = (if typeof_boolean (fld data ''hasAudio'') then fld data ''hasAudio''
                      else hasAudio defaultData),
          isPlaying = (if typeof_boolean (fld data ''isPlaying'') then fld data ''isPlaying''
                       else JUndefined),
          tabUrl = (if typeof_string (fld data ''tabUrl'') then fld data ''tabUrl''
                    else JUndefined) \<rparr>)"

section \<open>The coordinator's state\<close>

text \<open>
  The volume records are JavaScript objects, and the script stores one object under
  several keys (\<^verbatim>\<open>getVolumeDataForTab\<close> puts the object of the address mapping into
  the tab mapping) and later mutates it in place (\<^verbatim>\<open>volumeData.hasAudio = ...\<close>,
  \<^verbatim>\<open>volumeData.tabUrl = ...\<close>). The model keeps the objects in \<open>heap\<close>, a list
  indexed by reference; the two mappings hold references. A new object is appended. A
  reference is read with \<open>heap st ! r\<close>; in a reachable state every reference that the
  script holds is below the length of the heap (\<open>heap_ok\<close> below).

  \<^item> \<open>storage\<close> is the log of \<^verbatim>\<open>chrome.storage.local.set\<close> calls, each with the
    value the object had at the call. The key \<^verbatim>\<open>tab-volume-<id>\<close> is \<open>TabKey id\<close>
    and \<^verbatim>\<open>url-volume-<url>\<close> is \<open>UrlKey url\<close>.
  \<^item> \<open>sent\<close> is the log of \<^verbatim>\<open>chrome.tabs.sendMessage\<close> calls: destination,
    message and the retry count of the call, which its callback uses.
  \<^item> \<open>callbacks\<close> holds the calls of \<open>sent\<close> whose callback has not run yet.
  \<^item> \<open>responses\<close> is the log of \<^verbatim>\<open>sendResponse\<close> calls.
  \<^item> \<open>warnings\<close> is the log of \<^verbatim>\<open>console.warn\<close> calls; \<^verbatim>\<open>console.log\<close> and
    \<^verbatim>\<open>console.error\<close> have no effect on the state and are left out.
  \<^item> \<open>timers\<close> holds the callbacks given to \<^verbatim>\<open>setTimeout\<close> that have not run yet.
  \<^item> \<open>broadcasts\<close> is the log of \<^verbatim>\<open>tabAudibleChanged\<close> notifications.
\<close>

record queue_item =
  message :: jsval
  retryCount :: nat
  time :: int

record tab =
  tab_id :: jsval
  tab_url :: jsval
  tab_audible :: jsval

record changeInfo =
  ci_status :: jsval
  ci_audible :: jsval
  ci_url :: jsval

record sender =
  sender_id :: jsval
  sender_tab :: "tab option"

datatype storage_key = TabKey jsval | UrlKey jsval

datatype response =
    Success
  | Failure string
  | TabsResponse "(tab \<times> TabVolumeData) list"
  | StatusResponse jsval jsval jsval

datatype warning =
    InvalidTabIdWarning jsval
  | QueueOverflow jsval
  | DiscardingOld jsval

datatype timer = ProcessQueueTimer jsval | ApplyVolumeTimer jsval nat

record state =
  heap :: "TabVolumeData list"
  tabVolumeSettings :: "jsval \<rightharpoonup> nat"
  urlVolumeSettings :: "jsval \<rightharpoonup> nat"
  audibleTabs :: "jsval set"
  messageQueues :: "(jsval \<times> queue_item list) list"
  storage :: "(storage_key \<times> TabVolumeData) list"
  sent :: "(jsval \<times> jsval \<times> nat) list"
  callbacks :: "(jsval \<times> jsval \<times> nat) list"
  responses :: "response list"
  warnings :: "warning list"
  timers :: "timer list"
  broadcasts :: "(jsval \<times> jsval \<times> tab) list"

definition init_state :: state where
  "init_state =
     \<lparr> heap = [], tabVolumeSettings = Map.empty, urlVolumeSettings = Map.empty,
       audibleTabs = {}, messageQueues = [], storage = [], sent = [], callbacks = [],
       responses = [],
       warnings = [], timers = [], broadcasts = [] \<rparr>"

definition alloc :: "state \<Rightarrow> TabVolumeData \<Rightarrow> nat \<times> state" where
  "alloc st v = (length (heap st), st\<lparr>heap := heap st @ [v]\<rparr>)"

definition warn :: "state \<Rightarrow> warning \<Rightarrow> state" where
  "warn st w = st\<lparr>warnings := warnings st @ [w]\<rparr>"

definition respond :: "state \<Rightarrow> response \<Rightarrow> state" where
  "respond st r = st\<lparr>responses := responses st @ [r]\<rparr>"

section \<open>State cache\<close>

text \<open>\<^verbatim>\<open>saveTabVolume\<close>: the value handed to \<^verbatim>\<open>chrome.storage.local.set\<close> is read at
  the call, so the entry under the tab key is the object before \<^verbatim>\<open>tabUrl\<close> is
  assigned and the entry under the address key is the object after it. The callbacks of
  the two writes only log.\<close>

definition saveTabVolume :: "state \<Rightarrow> jsval \<Rightarrow> nat \<Rightarrow> jsval \<Rightarrow> state" where
  "saveTabVolume st tabId r url =
     (if \<not> isValidTabId tabId then st
      else
        let st1 = st\<lparr>storage := storage st @ [(TabKey tabId, heap st ! r)]\<rparr> in
        if truthy url then
          let h = (heap st1)[r := (heap st1 ! r)\<lparr>tabUrl := url\<rparr>] in
          st1\<lparr>heap := h,
              storage := storage st1 @ [(UrlKey url, h ! r)],
              urlVolumeSettings := (urlVolumeSettings st1)(url \<mapsto> r)\<rparr>
        else st1)"

text \<open>\<^verbatim>\<open>getVolumeDataForTab\<close> returns the reference of the object it returns, and the
  state: the fallback through the address mapping writes, and the default is a new
  object.\<close>

definition getVolumeDataForTab :: "state \<Rightarrow> jsval \<Rightarrow> jsval \<Rightarrow> nat \<times> state" where
  "getVolumeDataForTab st tabId url =
     (if \<not> isValidTabId tabId
      then alloc (warn st (InvalidTabIdWarning tabId)) getDefaultVolumeData
      else
        case tabVolumeSettings st tabId of
          Some r \<Rightarrow> (r, st)
        | None \<Rightarrow>
            (case (if truthy url then urlVolumeSettings st url else None) of
               Some r \<Rightarrow>
                 (r, saveTabVolume
                       (st\<lparr>tabVolumeSettings := (tabVolumeSettings st)(tabId \<mapsto> r)\<rparr>)
                       tabId r url)
             | None \<Rightarrow> alloc st getDefaultVolumeData))"

section \<open>Delivery queue\<close>

definition validMessageFormat :: "jsval \<Rightarrow> bool" where
  "validMessageFormat m = (truthy m \<and> typeof_object m \<and> truthy (fld m ''action''))"

text \<open>\<^verbatim>\<open>sendMessageToTab\<close> up to the call of \<^verbatim>\<open>chrome.tabs.sendMessage\<close>. The
  callback of that call runs later, as \<open>sendMessageCallback\<close>.\<close>

definition sendMessageToTab :: "state \<Rightarrow> jsval \<Rightarrow> jsval \<Rightarrow> nat \<Rightarrow> state" where
  "sendMessageToTab st tabId m rc =
     (if \<not> isValidTabId tabId then st
      else if \<not> validMessageFormat m then st
      else if rc \<ge> MAX_RETRIES then st
      else st\<lparr>sent := sent st @ [(tabId, m, rc)],
              callbacks := callbacks st @ [(tabId, m, rc)]\<rparr>)"

definition sendMessageCallback ::
    "state \<Rightarrow> jsval \<Rightarrow> jsval \<Rightarrow> nat \<Rightarrow> bool \<Rightarrow> int \<Rightarrow> state" where
  "sendMessageCallback st tabId m rc lastError now =
     (if lastError then
        let qs = (if map_of (messageQueues st) tabId = None
                  then AList.update tabId [] (messageQueues st)
                  else messageQueues st);
            queue = (case map_of qs tabId of Some q \<Rightarrow> q | None \<Rightarrow> [])
        in if length queue < MAX_QUEUE_SIZE
           then st\<lparr>messageQueues :=
                  AList.update tabId
                    (queue @ [\<lparr>message = m, retryCount = rc + 1, time = now\<rparr>]) qs\<rparr>
           else warn (st\<lparr>messageQueues := qs\<rparr>) (QueueOverflow tabId)
      else st)"

text \<open>The \<open>i\<close>-th pending callback of \<^verbatim>\<open>chrome.tabs.sendMessage\<close> runs, with
  \<^verbatim>\<open>chrome.runtime.lastError\<close> set or not.\<close>

definition sendResult :: "state \<Rightarrow> nat \<Rightarrow> bool \<Rightarrow> int \<Rightarrow> state" where
  "sendResult st i lastError now =
     (if i < length (callbacks st)
      then (case callbacks st ! i of
              (tabId, m, rc) \<Rightarrow>
                sendMessageCallback
                  (st\<lparr>callbacks := take i (callbacks st) @ drop (Suc i) (callbacks st)\<rparr>)
                  tabId m rc lastError now)
      else st)"

text \<open>The body of the \<^verbatim>\<open>forEach\<close> of \<^verbatim>\<open>processMessageQueue\<close>. The queue of the tab
  was set to the empty array just before the loop, so \<^verbatim>\<open>messageQueues.get(tabId)!\<close>
  finds it.\<close>

definition processItem :: "jsval \<Rightarrow> int \<Rightarrow> queue_item \<Rightarrow> state \<Rightarrow> state" where
  "processItem tabId currentTime item st =
     (if \<not> validMessageFormat (message item) then st
      else if currentTime - time item \<ge> 1000 \<and> currentTime - time item < 60000
      then sendMessageToTab st tabId (message item) (retryCount item)
      else if currentTime - time item < 1000 then
        (case map_of (messageQueues st) tabId of
           Some currentQueue \<Rightarrow>
             if length currentQueue < MAX_QUEUE_SIZE
             then st\<lparr>messageQueues :=
                    AList.update tabId (currentQueue @ [item]) (messageQueues st)\<rparr>
             else warn st (QueueOverflow tabId)
         | None \<Rightarrow> st)
      else warn st (DiscardingOld tabId))"

definition processMessageQueue :: "state \<Rightarrow> jsval \<Rightarrow> int \<Rightarrow> state" where
  "processMessageQueue st tabId currentTime =
     (if \<not> isValidTabId tabId then st
      else
        case map_of (messageQueues st) tabId of
          None \<Rightarrow> st
        | Some queue \<Rightarrow>
            if queue = [] then st
            else fold (processItem tabId currentTime) (take MAX_QUEUE_SIZE queue)
                   (st\<lparr>messageQueues := AList.update tabId [] (messageQueues st)\<rparr>))"

text \<open>The \<^verbatim>\<open>setInterval\<close> callback: every queue of the map, in the map's order.
  \<^verbatim>\<open>Date.now()\<close> is read once per queue; the model uses one reading for the whole
  sweep.\<close>

definition sweep :: "state \<Rightarrow> int \<Rightarrow> state" where
  "sweep st now =
     fold (\<lambda>tabId s. processMessageQueue s tabId now) (map fst (messageQueues st)) st"

definition applyVolumeToTab :: "state \<Rightarrow> jsval \<Rightarrow> TabVolumeData \<Rightarrow> state" where
  "applyVolumeToTab st tabId volumeData =
     (if \<not> isValidTabId tabId then st
      else sendMessageToTab st tabId
             (JObj [(''action'', JStr (if truthy (muted volumeData) then ''toggleMute''
                                      else ''setVolume'')),
                    (''volume'', volume volumeData),
                    (''muted'', muted volumeData),
                    (''previousVolume'', previousVolume volumeData)])
             0)"

section \<open>Lifecycle reconciler\<close>

definition audibleStarted :: "state \<Rightarrow> jsval \<Rightarrow> tab \<Rightarrow> state" where
  "audibleStarted st tabId tb =
     (let s1 = st\<lparr>audibleTabs := insert tabId (audibleTabs st)\<rparr>;
          (r, s2) = getVolumeDataForTab s1 tabId (tab_url tb);
          s3 = s2\<lparr>heap := (heap s2)[r := (heap s2 ! r)\<lparr>hasAudio := JBool True\<rparr>]\<rparr>;
          s4 = s3\<lparr>tabVolumeSettings := (tabVolumeSettings s3)(tabId \<mapsto> r)\<rparr>;
          s5 = saveTabVolume s4 tabId r (tab_url tb)
      in s5\<lparr>timers := timers s5 @ [ApplyVolumeTimer tabId r]\<rparr>)"

definition urlChanged :: "state \<Rightarrow> jsval \<Rightarrow> tab \<Rightarrow> state" where
  "urlChanged st newUrl tb =
     (case urlVolumeSettings st newUrl of
        Some r \<Rightarrow>
          let s = st\<lparr>tabVolumeSettings := (tabVolumeSettings st)(tab_id tb \<mapsto> r)\<rparr> in
          if truthy (tab_audible tb)
          then s\<lparr>timers := timers s @ [ApplyVolumeTimer (tab_id tb) r]\<rparr>
          else s
      | None \<Rightarrow> st)"

definition onUpdated :: "state \<Rightarrow> jsval \<Rightarrow> changeInfo \<Rightarrow> tab \<Rightarrow> state" where
  "onUpdated st tabId ci tb =
     (if \<not> isValidTabId tabId then st
      else
        let st1 = (if ci_status ci = JStr ''complete''
                   then st\<lparr>timers := timers st @ [ProcessQueueTimer tabId]\<rparr>
                   else st);
            st2 = (if ci_audible ci \<noteq> JUndefined then
                     let s = (if truthy (ci_audible ci) then audibleStarted st1 tabId tb
                              else st1\<lparr>audibleTabs := audibleTabs st1 - {tabId}\<rparr>)
                     in s\<lparr>broadcasts := broadcasts s @ [(tabId, ci_audible ci, tb)]\<rparr>
                   else st1)
        in if truthy (ci_url ci) \<and> truthy (tab_id tb) then urlChanged st2 (ci_url ci) tb
           else st2)"

definition onRemoved :: "state \<Rightarrow> jsval \<Rightarrow> state" where
  "onRemoved st tabId =
     (if \<not> isValidTabId tabId then st
      else st\<lparr>audibleTabs := audibleTabs st - {tabId},
              tabVolumeSettings := (tabVolumeSettings st)(tabId := None),
              messageQueues := AList.delete tabId (messageQueues st)\<rparr>)"

text \<open>A \<^verbatim>\<open>setTimeout\<close> callback that runs: the \<open>i\<close>-th pending one.\<close>

definition runTimer :: "state \<Rightarrow> timer \<Rightarrow> int \<Rightarrow> state" where
  "runTimer st t now =
     (case t of
        ProcessQueueTimer tabId \<Rightarrow> processMessageQueue st tabId now
      | ApplyVolumeTimer tabId r \<Rightarrow> applyVolumeToTab st tabId (heap st ! r))"

definition timerFired :: "state \<Rightarrow> nat \<Rightarrow> int \<Rightarrow> state" where
  "timerFired st i now =
     (if i < length (timers st)
      then runTimer (st\<lparr>timers := take i (timers st) @ drop (Suc i) (timers st)\<rparr>)
             (timers st ! i) now
      else st)"

section \<open>Request router\<close>

text \<open>
  \<^verbatim>\<open>chrome.tabs.get\<close> and \<^verbatim>\<open>chrome.tabs.query\<close> answer through callbacks. The
  handler is modelled with its callback run at once, on the answer the browser gives:
  the code before the callback only validates the request and changes nothing, so a
  callback that runs later, on a later state, is the handler run on that state.
  \<^verbatim>\<open>chrome.tabs.get\<close> answers with a tab, sets \<^verbatim>\<open>lastError\<close>, or rejects its
  arguments with an exception; the exception is caught by the listener's
  \<^verbatim>\<open>catch\<close>, which responds and then runs on to the listener's last two lines.
\<close>

datatype tabs_get_result = Throws string | LastError string | Found tab

datatype outcome = Returned state | NoMatch | Threw string

definition updateTabVolumeCallback ::
    "state \<Rightarrow> jsval \<Rightarrow> jsval \<Rightarrow> jsval \<Rightarrow> jsval \<Rightarrow> tab \<Rightarrow> state" where
  "updateTabVolumeCallback st tabId vol mut prev tb =
     (let (r, s1) = getVolumeDataForTab st tabId (tab_url tb);
          volumeData = heap s1 ! r;
          newVolumeData =
            volumeData\<lparr>volume := (if vol \<noteq> JUndefined then vol else volume volumeData),
                       muted := (if mut \<noteq> JUndefined then mut else muted volumeData),
                       previousVolume := (if prev \<noteq> JUndefined then prev
                                          else previousVolume volumeData),
                       hasAudio := JBool True\<rparr>;
          (r', s2) = alloc s1 newVolumeData;
          s3 = s2\<lparr>tabVolumeSettings := (tabVolumeSettings s2)(tabId \<mapsto> r')\<rparr>;
          s4 = saveTabVolume s3 tabId r' (tab_url tb);
          s5 = applyVolumeToTab s4 tabId (heap s4 ! r')
      in respond s5 Success)"

definition handleUpdateTabVolume ::
    "(jsval \<Rightarrow> tabs_get_result) \<Rightarrow> state \<Rightarrow> jsval \<Rightarrow> outcome" where
  "handleUpdateTabVolume tabsGet st msg =
     (let tabId = fld msg ''tabId''; vol = fld msg ''volume'';
          mut = fld msg ''muted''; prev = fld msg ''previousVolume'' in
      if \<not> isValidTabId tabId then Returned (respond st (Failure ''Invalid tabId''))
      else if vol \<noteq> JUndefined \<and> \<not> isValidVolume vol
      then Returned (respond st (Failure ''Invalid volume''))
      else if prev \<noteq> JUndefined \<and> \<not> isValidVolume prev
      then Returned (respond st (Failure ''Invalid previousVolume''))
      else if mut \<noteq> JUndefined \<and> \<not> typeof_boolean mut
      then Returned (respond st (Failure ''Invalid muted state''))
      else
        case tabsGet tabId of
          Throws e \<Rightarrow> Threw e
        | LastError e \<Rightarrow> Returned (respond st (Failure e))
        | Found tb \<Rightarrow> Returned (updateTabVolumeCallback st tabId vol mut prev tb))"

definition handleContentScriptReady :: "state \<Rightarrow> jsval \<Rightarrow> int \<Rightarrow> state" where
  "handleContentScriptReady st tabId now =
     (if \<not> isValidTabId tabId then respond st (Failure ''Invalid tabId'')
      else respond (processMessageQueue st tabId now) Success)"

fun attachVolumeData :: "state \<Rightarrow> tab list \<Rightarrow> (tab \<times> nat) list \<times> state" where
  "attachVolumeData st [] = ([], st)"
| "attachVolumeData st (tb # tbs) =
     (let (r, s1) = getVolumeDataForTab st (tab_id tb) (tab_url tb);
          (rest, s2) = attachVolumeData s1 tbs
      in ((tb, r) # rest, s2))"

definition relevantTab :: "state \<Rightarrow> tab \<Rightarrow> bool" where
  "relevantTab st tb =
     (truthy (tab_id tb) \<and> isValidTabId (tab_id tb) \<and>
      (tab_id tb \<in> audibleTabs st \<or>
       (case tabVolumeSettings st (tab_id tb) of
          Some r \<Rightarrow> truthy (hasAudio (heap st ! r))
        | None \<Rightarrow> False) \<or>
       (truthy (tab_url tb) \<and> urlVolumeSettings st (tab_url tb) \<noteq> None)))"

definition handleGetAudibleTabs :: "state \<Rightarrow> tab list \<Rightarrow> state" where
  "handleGetAudibleTabs st tabs =
     (let relevantTabs = filter (relevantTab st) tabs;
          (tabsWithVolume, s1) = attachVolumeData st relevantTabs
      in respond s1 (TabsResponse (map (\<lambda>(tb, r). (tb, heap s1 ! r)) tabsWithVolume)))"

definition handleGetAudioStatus :: "state \<Rightarrow> jsval \<Rightarrow> jsval \<Rightarrow> state" where
  "handleGetAudioStatus st tabId url =
     (if \<not> isValidTabId tabId then respond st (Failure ''Invalid tabId'')
      else
        let (r, s1) = getVolumeDataForTab st tabId url;
            volumeData = heap s1 ! r
        in respond s1 (StatusResponse (volume volumeData) (muted volumeData)
                         (previousVolume volumeData)))"

definition handleUpdateTabStatus :: "state \<Rightarrow> jsval \<Rightarrow> jsval \<Rightarrow> jsval \<Rightarrow> state" where
  "handleUpdateTabStatus st tabId url msg =
     (if \<not> isValidTabId tabId then respond st (Failure ''Invalid tabId'')
      else if \<not> typeof_boolean (fld msg ''hasAudio'')
      then respond st (Failure ''Invalid hasAudio value'')
      else
        let (r, s1) = getVolumeDataForTab st tabId url;
            s2 = s1\<lparr>heap := (heap s1)[r := (heap s1 ! r)\<lparr>hasAudio := fld msg ''hasAudio''\<rparr>]\<rparr>;
            s3 = s2\<lparr>tabVolumeSettings := (tabVolumeSettings s2)(tabId \<mapsto> r)\<rparr>;
            s4 = saveTabVolume s3 tabId r url
        in respond s4 Success)"

text \<open>\<^verbatim>\<open>sender.tab?.id\<close> and \<^verbatim>\<open>sender.tab.url\<close>.\<close>

definition senderTabId :: "sender \<Rightarrow> jsval" where
  "senderTabId sd = (case sender_tab sd of None \<Rightarrow> JUndefined | Some tb \<Rightarrow> tab_id tb)"

definition senderTabUrl :: "sender \<Rightarrow> jsval" where
  "senderTabUrl sd = (case sender_tab sd of None \<Rightarrow> JUndefined | Some tb \<Rightarrow> tab_url tb)"

text \<open>The \<^verbatim>\<open>try\<close> block of the listener: the first branch whose condition holds
  returns.\<close>

definition dispatch ::
    "(jsval \<Rightarrow> tabs_get_result) \<Rightarrow> tab list \<Rightarrow> int \<Rightarrow> state \<Rightarrow> sender \<Rightarrow> jsval \<Rightarrow> outcome" where
  "dispatch tabsGet tabsQuery now st sd msg =
     (if fld msg ''action'' = JStr ''contentScriptReady'' \<and> truthy (senderTabId sd)
      then Returned (handleContentScriptReady st (senderTabId sd) now)
      else if fld msg ''action'' = JStr ''getAudibleTabs''
      then Returned (handleGetAudibleTabs st tabsQuery)
      else if fld msg ''action'' = JStr ''updateTabVolume''
      then handleUpdateTabVolume tabsGet st msg
      else if fld msg ''action'' = JStr ''getAudioStatus'' \<and> truthy (senderTabId sd)
      then Returned (handleGetAudioStatus st (senderTabId sd) (senderTabUrl sd))
      else if fld msg ''action'' = JStr ''updateTabStatus'' \<and> truthy (senderTabId sd)
      then Returned (handleUpdateTabStatus st (senderTabId sd) (senderTabUrl sd) msg)
      else NoMatch)"

text \<open>The \<^verbatim>\<open>chrome.runtime.onMessage\<close> listener. \<open>runtimeId\<close> is
  \<^verbatim>\<open>chrome.runtime.id\<close>.\<close>

definition authorized :: "string \<Rightarrow> sender \<Rightarrow> bool" where
  "authorized runtimeId sd = (\<not> (truthy (sender_id sd) \<and> sender_id sd \<noteq> JStr runtimeId))"

definition onMessage ::
    "string \<Rightarrow> (jsval \<Rightarrow> tabs_get_result) \<Rightarrow> tab list \<Rightarrow> int \<Rightarrow> state \<Rightarrow> sender \<Rightarrow> jsval
      \<Rightarrow> state" where
  "onMessage runtimeId tabsGet tabsQuery now st sd msg =
     (if \<not> authorized runtimeId sd then st
      else if \<not> validMessageFormat msg then st
      else
        case dispatch tabsGet tabsQuery now st sd msg of
          Returned st' \<Rightarrow> st'
        | NoMatch \<Rightarrow> respond st (Failure ''Unknown action'')
        | Threw e \<Rightarrow> respond (respond st (Failure e)) (Failure ''Unknown action''))"

section \<open>Startup hydration\<close>

text \<open>\<^verbatim>\<open>parseInt\<close> on the rest of a key: leading white space, a sign, a \<^verbatim>\<open>0x\<close>
  prefix for radix 16, then the longest run of digits; NaN when there is no digit. A
  \<open>char\<close> is a code unit below 256, so the white space is the characters 9 to 13, the
  space and the no-break space (160); the white space of JavaScript above 255 cannot
  occur in a \<open>string\<close>. The integer read is rounded to a double as JavaScript numbers
  are: to the nearest, ties to the even mantissa, and to an infinity from \<open>2 ^ 1024\<close>
  on. (Beyond 20 significant decimal digits the language leaves the digits that follow
  to the implementation; the model rounds the exact integer.)\<close>

definition is_ws :: "char \<Rightarrow> bool" where
  "is_ws c = (of_char c \<in> {9, 10, 11, 12, 13, 32, 160 :: nat})"

fun bitlen :: "nat \<Rightarrow> nat" where
  "bitlen n = (if n = 0 then 0 else Suc (bitlen (n div 2)))"

definition roundToDouble :: "bool \<Rightarrow> nat \<Rightarrow> jsval" where
  "roundToDouble neg n =
     (if n < 2 ^ 53 then JNum (if neg then - real n else real n)
      else
        let e = bitlen n - 53;
            q = n div 2 ^ e;
            r = n mod 2 ^ e;
            m = (if 2 * r > 2 ^ e \<or> (2 * r = 2 ^ e \<and> odd q) then q + 1 else q) * 2 ^ e
        in if m \<ge> 2 ^ 1024 then (if neg then JNegInf else JPosInf)
           else JNum (if neg then - real m else real m))"

definition digit_of :: "nat \<Rightarrow> char \<Rightarrow> nat option" where
  "digit_of radix c =
     (let n = (of_char c :: nat);
          d = (if 48 \<le> n \<and> n \<le> 57 then Some (n - 48)
               else if 97 \<le> n \<and> n \<le> 122 then Some (n - 87)
               else if 65 \<le> n \<and> n \<le> 90 then Some (n - 55)
               else None)
      in case d of Some v \<Rightarrow> (if v < radix then Some v else None) | None \<Rightarrow> None)"

fun parse_digits :: "nat \<Rightarrow> string \<Rightarrow> nat option \<Rightarrow> nat option" where
  "parse_digits radix [] acc = acc"
| "parse_digits radix (c # cs) acc =
     (case digit_of radix c of
        None \<Rightarrow> acc
      | Some d \<Rightarrow>
          parse_digits radix cs (Some ((case acc of None \<Rightarrow> 0 | Some a \<Rightarrow> a) * radix + d)))"

definition parseInt :: "string \<Rightarrow> jsval" where
  "parseInt s =
     (let s1 = dropWhile is_ws s;
          neg = (case s1 of c # cs \<Rightarrow> c = CHR ''-'' | [] \<Rightarrow> False);
          s2 = (case s1 of c # cs \<Rightarrow> if c = CHR ''-'' \<or> c = CHR ''+'' then cs else s1
                | [] \<Rightarrow> s1);
          hex = (case s2 of c # d # cs \<Rightarrow> c = CHR ''0'' \<and> (d = CHR ''x'' \<or> d = CHR ''X'')
                 | _ \<Rightarrow> False);
          digits = parse_digits (if hex then 16 else 10) (if hex then drop 2 s2 else s2) None
      in case digits of
           None \<Rightarrow> JNaN
         | Some n \<Rightarrow> roundToDouble neg n)"

definition startsWith :: "string \<Rightarrow> string \<Rightarrow> bool" where
  "startsWith key p = (take (length p) key = p)"

text \<open>The body of the \<^verbatim>\<open>forEach\<close> over the stored keys. The key starts with the
  prefix, so \<^verbatim>\<open>key.replace(prefix, "")\<close> drops it.\<close>

definition loadItem :: "string \<times> jsval \<Rightarrow> state \<Rightarrow> state" where
  "loadItem kv st =
     (let key = fst kv; item = snd kv;
          st1 = (if startsWith key ''tab-volume-'' then
                   let tabId = parseInt (drop (length ''tab-volume-'') key) in
                   if \<not> js_isNaN tabId \<and> js_gt tabId 0 then
                     let (r, s) = alloc st (validateVolumeData item) in
                     s\<lparr>tabVolumeSettings := (tabVolumeSettings s)(tabId \<mapsto> r)\<rparr>
                   else st
                 else st)
      in if startsWith key ''url-volume-'' then
           let url = drop (length ''url-volume-'') key in
           if url \<noteq> [] then
             let (r, s) = alloc st1 (validateVolumeData item) in
             s\<lparr>urlVolumeSettings := (urlVolumeSettings s)(JStr url \<mapsto> r)\<rparr>
           else st1
         else st1)"

definition storageLoaded :: "state \<Rightarrow> bool \<Rightarrow> (string \<times> jsval) list \<Rightarrow> state" where
  "storageLoaded st lastError items = (if lastError then st else fold loadItem items st)"

section \<open>Events\<close>

text \<open>
  The script is single-threaded: the state changes only when one of its callbacks runs.
  An event is one such run, with what the browser hands it.
\<close>

datatype event =
    StorageLoaded bool "(string \<times> jsval) list"
  | TabUpdated jsval changeInfo tab
  | TabRemoved jsval
  | Message sender jsval "jsval \<Rightarrow> tabs_get_result" "tab list" int
  | SendResult nat bool int
  | IntervalTick int
  | TimerFired nat int

definition step :: "string \<Rightarrow> state \<Rightarrow> event \<Rightarrow> state" where
  "step runtimeId st ev =
     (case ev of
        StorageLoaded lastError items \<Rightarrow> storageLoaded st lastError items
      | TabUpdated tabId ci tb \<Rightarrow> onUpdated st tabId ci tb
      | TabRemoved tabId \<Rightarrow> onRemoved st tabId
      | Message sd msg tabsGet tabsQuery now \<Rightarrow>
          onMessage runtimeId tabsGet tabsQuery now st sd msg
      | SendResult i lastError now \<Rightarrow> sendResult st i lastError now
      | IntervalTick now \<Rightarrow> sweep st now
      | TimerFired i now \<Rightarrow> timerFired st i now)"

inductive reachable :: "string \<Rightarrow> state \<Rightarrow> bool" for runtimeId :: string where
  reachable_init: "reachable runtimeId init_state"
| reachable_step: "reachable runtimeId st \<Longrightarrow> reachable runtimeId (step runtimeId st ev)"

section \<open>Invariants of the reachable states\<close>

text \<open>
  A record is valid when both volumes pass \<open>isValidVolume\<close>.
  \<^item> \<open>heap_ok\<close>: every object is valid, every reference held by a mapping or by a
    pending timer is an object of the heap, and no key of the address mapping is falsy.
  \<^item> \<open>queues_ok\<close>: the queue map has one entry for a key, and no queue is longer than
    \<open>MAX_QUEUE_SIZE\<close>.
  \<^item> \<open>core\<close> and \<open>qcore\<close> name the parts of the state that the queue operations and
    the cache operations, respectively, leave alone.
\<close>

definition validRecord :: "TabVolumeData \<Rightarrow> bool" where
  "validRecord d = (isValidVolume (volume d) \<and> isValidVolume (previousVolume d))"

definition heap_ok :: "state \<Rightarrow> bool" where
  "heap_ok st =
     ((\<forall>d \<in> set (heap st). validRecord d) \<and>
      (\<forall>k r. tabVolumeSettings st k = Some r \<longrightarrow> r < length (heap st)) \<and>
      (\<forall>k r. urlVolumeSettings st k = Some r \<longrightarrow> r < length (heap st) \<and> truthy k) \<and>
      (\<forall>k r. ApplyVolumeTimer k r \<in> set (timers st) \<longrightarrow> r < length (heap st)))"

definition queues_ok :: "state \<Rightarrow> bool" where
  "queues_ok st =
     (distinct (map fst (messageQueues st)) \<and>
      (\<forall>kq \<in> set (messageQueues st). length (snd kq) \<le> MAX_QUEUE_SIZE))"

definition core ::
    "state \<Rightarrow> TabVolumeData list \<times> (jsval \<rightharpoonup> nat) \<times> (jsval \<rightharpoonup> nat) \<times>
      (storage_key \<times> TabVolumeData) list \<times> response list \<times> timer list \<times> jsval set \<times>
      (jsval \<times> jsval \<times> tab) list" where
  "core st = (heap st, tabVolumeSettings st, urlVolumeSettings st, storage st,
              responses st, timers st, audibleTabs st, broadcasts st)"

definition qcore ::
    "state \<Rightarrow> (jsval \<times> queue_item list) list \<times> (jsval \<times> jsval \<times> nat) list \<times>
      response list \<times> timer list \<times> jsval set \<times> (jsval \<times> jsval \<times> tab) list" where
  "qcore st = (messageQueues st, sent st, responses st, timers st, audibleTabs st,
               broadcasts st)"

text \<open>\<open>msgs_ok\<close>: every pending callback and every queued entry belongs to a valid tab
  identifier and holds a message that \<^verbatim>\<open>sendMessageToTab\<close> accepts.\<close>

definition msgs_ok :: "state \<Rightarrow> bool" where
  "msgs_ok st =
     ((\<forall>c \<in> set (callbacks st). isValidTabId (fst c) \<and> validMessageFormat (fst (snd c))) \<and>
      (\<forall>kq \<in> set (messageQueues st).
         isValidTabId (fst kq) \<and> (\<forall>e \<in> set (snd kq). validMessageFormat (message e))))"

text \<open>Names for what the \<^verbatim>\<open>updateTabVolume\<close> branch computes: the record it reads
  (\<^verbatim>\<open>const volumeData = getVolumeDataForTab(tabId, tab.url)\<close>), the record it builds
  (\<^verbatim>\<open>newVolumeData\<close>) and the message \<^verbatim>\<open>applyVolumeToTab\<close> builds from a record.\<close>

definition currentRecord :: "state \<Rightarrow> jsval \<Rightarrow> jsval \<Rightarrow> TabVolumeData" where
  "currentRecord st tabId url = (let (r, s1) = getVolumeDataForTab st tabId url in heap s1 ! r)"

definition mergeRequest :: "TabVolumeData \<Rightarrow> jsval \<Rightarrow> jsval \<Rightarrow> jsval \<Rightarrow> TabVolumeData" where
  "mergeRequest old vol mut prev =
     old\<lparr>volume := (if vol \<noteq> JUndefined then vol else volume old),
         muted := (if mut \<noteq> JUndefined then mut else muted old),
         previousVolume := (if prev \<noteq> JUndefined then prev else previousVolume old),
         hasAudio := JBool True\<rparr>"

definition command :: "TabVolumeData \<Rightarrow> jsval" where
  "command d =
     JObj [(''action'', JStr (if truthy (muted d) then ''toggleMute'' else ''setVolume'')),
           (''volume'', volume d), (''muted'', muted d),
           (''previousVolume'', previousVolume d)]"

section \<open>Example runs\<close>

text \<open>Concrete states, each reached from \<open>init_state\<close> by events; the theorems below
  are applied to them.\<close>

text \<open>After hydration from a store that holds one address entry.\<close>

definition hydrated :: state where
  "hydrated = step ''ext'' init_state
      (StorageLoaded False [(''url-volume-http://a'', JObj [(''volume'', JNum 30)])])"

text \<open>The popup as sender, a tab, and the state after hydration from a store that holds
  one tab entry; \<open>request\<close> is an \<^verbatim>\<open>updateTabVolume\<close> message of the popup for that
  tab, answered by \<^verbatim>\<open>chrome.tabs.get\<close> with the tab.\<close>

definition popup :: sender where
  "popup = \<lparr>sender_id = JStr ''ext'', sender_tab = None\<rparr>"

definition tab42 :: tab where
  "tab42 = \<lparr>tab_id = JNum 42, tab_url = JStr ''http://a'', tab_audible = JBool True\<rparr>"

definition stored42 :: TabVolumeData where
  "stored42 = \<lparr>volume = JNum 50, previousVolume = JNum 80, muted = JBool False,
       hasAudio = JBool False, isPlaying = JUndefined, tabUrl = JUndefined\<rparr>"

definition restored :: state where
  "restored = step ''ext'' init_state
      (StorageLoaded False
         [(''tab-volume-42'',
           JObj [(''volume'', JNum 50), (''previousVolume'', JNum 80),
                 (''muted'', JBool False), (''hasAudio'', JBool False)])])"

definition request :: "(string \<times> jsval) list \<Rightarrow> event" where
  "request kvs = Message popup (JObj ((''action'', JStr ''updateTabVolume'') # kvs))
      (\<lambda>tabId. Found tab42) [] 0"

text \<open>A sender that is not the extension, and the state after hydration from a store
  whose one entry has an out-of-range volume.\<close>

definition stranger :: sender where
  "stranger = \<lparr>sender_id = JStr ''other'', sender_tab = None\<rparr>"


text \<open>The popup's request for volume 30, as its slider sends it, and the command the
  coordinator delivers for it. A round is that request followed by the failure of the
  delivery it caused; \<open>failed_once\<close> is one round after hydration, \<open>full_queue\<close> is
  fifty, and \<open>failed_thrice\<close> is one round followed by two sweeps whose re-sent command
  fails again.\<close>

definition volume30 :: event where
  "volume30 = request [(''tabId'', JNum 42), (''volume'', JNum 30), (''muted'', JBool False),
                       (''previousVolume'', JNum 30)]"

definition volume30_command :: jsval where
  "volume30_command = JObj [(''action'', JStr ''setVolume''), (''volume'', JNum 30),
                            (''muted'', JBool False), (''previousVolume'', JNum 30)]"

fun rounds :: "nat \<Rightarrow> state \<Rightarrow> state" where
  "rounds 0 st = st"
| "rounds (Suc n) st = step ''ext'' (step ''ext'' (rounds n st) volume30) (SendResult 0 True 0)"

definition failed_once :: state where
  "failed_once = rounds 1 restored"

definition full_queue :: state where
  "full_queue = rounds 50 restored"

definition failed_thrice :: state where
  "failed_thrice =
     step ''ext'' (step ''ext'' (step ''ext'' (step ''ext'' (rounds 1 restored)
       (IntervalTick 2000)) (SendResult 0 True 2000)) (IntervalTick 4000)) (SendResult 0 True 4000)"

section \<open>Preservation of the invariants\<close>

lemma isValidVolume_iff: "isValidVolume v \<longleftrightarrow> (\<exists>x. v = JNum x \<and> 0 \<le> x \<and> x \<le> 100)"
  by (cases v) (auto simp: isValidVolume_def)

lemma isValidTabId_iff: "isValidTabId v \<longleftrightarrow> (v = JPosInf \<or> (\<exists>x. v = JNum x \<and> 0 < x))"
  by (cases v) (auto simp: isValidTabId_def)

lemma validRecord_default: "validRecord getDefaultVolumeData"
  by (simp add: validRecord_def getDefaultVolumeData_def isValidVolume_def)

lemma validRecord_validate: "validRecord (validateVolumeData data)"
  by (simp add: validRecord_def validateVolumeData_def Let_def getDefaultVolumeData_def isValidVolume_iff)

lemma validRecord_tabUrl: "validRecord (d\<lparr>tabUrl := u\<rparr>) = validRecord d"
  by (simp add: validRecord_def)

lemma validRecord_hasAudio: "validRecord (d\<lparr>hasAudio := u\<rparr>) = validRecord d"
  by (simp add: validRecord_def)

lemma heap_ok_update:
  assumes "heap_ok st" "r < length (heap st)" "validRecord v"
  shows "heap_ok (st\<lparr>heap := (heap st)[r := v]\<rparr>)"
  using assms unfolding heap_ok_def
  by (auto dest!: subsetD [OF set_update_subset_insert])

lemma heap_ok_alloc:
  assumes "heap_ok st" "validRecord v"
  shows "heap_ok (snd (alloc st v))" "fst (alloc st v) = length (heap st)"
    "heap (snd (alloc st v)) = heap st @ [v]"
  using assms unfolding heap_ok_def alloc_def
  by (auto simp: less_Suc_eq)

lemma heap_ok_saveTabVolume:
  assumes "heap_ok st" "r < length (heap st)"
  shows "heap_ok (saveTabVolume st tabId r url)"
proof -
  have v: "validRecord ((heap st ! r)\<lparr>tabUrl := url\<rparr>)"
    using assms by (simp add: validRecord_tabUrl heap_ok_def)
  show ?thesis
    using assms v unfolding heap_ok_def saveTabVolume_def Let_def
    by (auto dest!: subsetD [OF set_update_subset_insert])
qed

lemma length_heap_saveTabVolume [simp]:
  "length (heap (saveTabVolume st tabId r url)) = length (heap st)"
  by (simp add: saveTabVolume_def Let_def)

lemma heap_ok_getVolumeDataForTab:
  assumes "heap_ok st"
  shows "heap_ok (snd (getVolumeDataForTab st tabId url)) \<and>
         fst (getVolumeDataForTab st tabId url) < length (heap (snd (getVolumeDataForTab st tabId url)))"
proof -
  have w: "heap_ok (warn st x)" for x using assms by (simp add: heap_ok_def warn_def)
  show ?thesis
  proof (cases "isValidTabId tabId")
    case False
    then show ?thesis
      using heap_ok_alloc [OF w validRecord_default]
      by (simp add: getVolumeDataForTab_def)
  next
    case True
    show ?thesis
    proof (cases "tabVolumeSettings st tabId")
      case (Some r)
      then show ?thesis using True assms by (simp add: getVolumeDataForTab_def heap_ok_def)
    next
      case None
      show ?thesis
      proof (cases "if truthy url then urlVolumeSettings st url else None")
        case None': None
        then show ?thesis
          using True None heap_ok_alloc [OF assms validRecord_default]
          by (simp add: getVolumeDataForTab_def)
      next
        case (Some r)
        then have r: "r < length (heap st)"
          using assms by (auto simp: heap_ok_def split: if_splits)
        let ?s = "st\<lparr>tabVolumeSettings := (tabVolumeSettings st)(tabId \<mapsto> r)\<rparr>"
        have "heap_ok ?s" using assms r by (auto simp: heap_ok_def)
        then have "heap_ok (saveTabVolume ?s tabId r url)"
          using r by (intro heap_ok_saveTabVolume) simp_all
        then show ?thesis
          using True None Some r by (simp add: getVolumeDataForTab_def)
      qed
    qed
  qed
qed

lemma set_AList_update: "set (AList.update k v al) \<subseteq> insert (k, v) (set al)"
  by (induction al) auto

lemma set_AList_delete: "set (AList.delete k al) \<subseteq> set al"
  by (induction al) auto

lemma heap_ok_core: "core st' = core st \<Longrightarrow> heap_ok st' = heap_ok st"
  by (simp add: core_def heap_ok_def)

lemma queues_ok_qcore: "qcore st' = qcore st \<Longrightarrow> queues_ok st' = queues_ok st"
  by (simp add: qcore_def queues_ok_def)

lemma qcore_warn [simp]: "qcore (warn st w) = qcore st"
  by (simp add: qcore_def warn_def)

lemma qcore_alloc [simp]: "qcore (snd (alloc st v)) = qcore st"
  by (simp add: qcore_def alloc_def)

lemma qcore_saveTabVolume [simp]: "qcore (saveTabVolume st tabId r url) = qcore st"
  by (simp add: qcore_def saveTabVolume_def Let_def)

lemma qcore_getVolumeDataForTab [simp]:
  "qcore (snd (getVolumeDataForTab st tabId url)) = qcore st"
  by (simp add: getVolumeDataForTab_def split: option.splits)
     (simp add: qcore_def)

lemma core_sendMessageToTab [simp]: "core (sendMessageToTab st tabId m rc) = core st"
  by (simp add: core_def sendMessageToTab_def)

lemma core_applyVolumeToTab [simp]: "core (applyVolumeToTab st tabId vd) = core st"
  by (simp add: applyVolumeToTab_def) 

lemma core_sendMessageCallback [simp]:
  "core (sendMessageCallback st tabId m rc e now) = core st"
  by (simp add: core_def sendMessageCallback_def Let_def warn_def)

lemma core_processItem [simp]: "core (processItem tabId now item st) = core st"
  by (simp add: processItem_def split: option.splits) (simp add: core_def warn_def)

lemma core_fold_processItem [simp]:
  "core (fold (processItem tabId now) items st) = core st"
  by (induction items arbitrary: st) simp_all

lemma core_processMessageQueue [simp]: "core (processMessageQueue st tabId now) = core st"
  by (simp add: processMessageQueue_def split: option.splits) (simp add: core_def)

lemma core_fold_processMessageQueue [simp]:
  "core (fold (\<lambda>tabId s. processMessageQueue s tabId now) ks st) = core st"
  by (induction ks arbitrary: st) simp_all

lemma core_sweep [simp]: "core (sweep st now) = core st"
  by (simp add: sweep_def)

lemma queues_ok_sendMessageToTab [simp]:
  "queues_ok (sendMessageToTab st tabId m rc) = queues_ok st"
  by (simp add: queues_ok_def sendMessageToTab_def)

lemma queues_ok_applyVolumeToTab [simp]:
  "queues_ok (applyVolumeToTab st tabId vd) = queues_ok st"
  by (simp add: applyVolumeToTab_def)

lemma queues_ok_update:
  assumes "queues_ok st" "length q \<le> MAX_QUEUE_SIZE"
  shows "queues_ok (st\<lparr>messageQueues := AList.update k q (messageQueues st)\<rparr>)"
  using assms set_AList_update [of k q "messageQueues st"]
  by (auto simp: queues_ok_def distinct_update)

lemma queues_ok_lookup:
  "queues_ok st \<Longrightarrow> map_of (messageQueues st) k = Some q \<Longrightarrow> length q \<le> MAX_QUEUE_SIZE"
  by (auto simp: queues_ok_def dest!: map_of_SomeD)

lemma queues_ok_sendMessageCallback:
  assumes "queues_ok st"
  shows "queues_ok (sendMessageCallback st tabId m rc e now)"
proof (cases e)
  case False
  then show ?thesis using assms by (simp add: sendMessageCallback_def)
next
  case True
  define qs where "qs = (if map_of (messageQueues st) tabId = None
                  then AList.update tabId [] (messageQueues st)
                  else messageQueues st)"
  define s1 where "s1 = st\<lparr>messageQueues := qs\<rparr>"
  have s1: "queues_ok s1"
    using queues_ok_update [OF assms, of "[]" tabId] assms
    by (auto simp: s1_def qs_def) 
  have mq: "messageQueues s1 = qs" by (simp add: s1_def)
  show ?thesis
  proof (cases "length (case map_of qs tabId of Some q \<Rightarrow> q | None \<Rightarrow> []) < MAX_QUEUE_SIZE")
    case lt: True
    have "queues_ok (s1\<lparr>messageQueues := AList.update tabId
            ((case map_of qs tabId of Some q \<Rightarrow> q | None \<Rightarrow> [])
              @ [\<lparr>message = m, retryCount = rc + 1, time = now\<rparr>]) (messageQueues s1)\<rparr>)"
      using lt by (intro queues_ok_update [OF s1]) simp
    then show ?thesis
      using True lt by (simp add: sendMessageCallback_def Let_def qs_def [symmetric] s1_def)
  next
    case ge: False
    have "queues_ok (warn s1 (QueueOverflow tabId))"
      using s1 by (simp add: queues_ok_def warn_def)
    then show ?thesis
      using True ge by (simp add: sendMessageCallback_def Let_def qs_def [symmetric] s1_def)
  qed
qed

lemma queues_ok_processItem:
  assumes "queues_ok st"
  shows "queues_ok (processItem tabId now item st)"
proof -
  have "queues_ok (st\<lparr>messageQueues := AList.update tabId (q @ [item]) (messageQueues st)\<rparr>)"
    if "length q < MAX_QUEUE_SIZE" for q
    using that by (intro queues_ok_update [OF assms]) simp
  moreover have "queues_ok (warn st w)" for w
    using assms by (simp add: queues_ok_def warn_def)
  ultimately show ?thesis
    using assms by (simp add: processItem_def split: option.splits)
qed

lemma queues_ok_fold_processItem:
  "queues_ok st \<Longrightarrow> queues_ok (fold (processItem tabId now) items st)"
  by (induction items arbitrary: st) (simp_all add: queues_ok_processItem)

lemma queues_ok_processMessageQueue:
  assumes "queues_ok st"
  shows "queues_ok (processMessageQueue st tabId now)"
proof -
  have "queues_ok (st\<lparr>messageQueues := AList.update tabId [] (messageQueues st)\<rparr>)"
    by (intro queues_ok_update [OF assms]) simp
  then show ?thesis
    using assms
    by (simp add: processMessageQueue_def queues_ok_fold_processItem split: option.splits)
qed

lemma queues_ok_fold_processMessageQueue:
  "queues_ok st \<Longrightarrow> queues_ok (fold (\<lambda>tabId s. processMessageQueue s tabId now) ks st)"
  by (induction ks arbitrary: st) (simp_all add: queues_ok_processMessageQueue)

lemma queues_ok_sweep: "queues_ok st \<Longrightarrow> queues_ok (sweep st now)"
  by (simp add: sweep_def queues_ok_fold_processMessageQueue)

lemma frame_getVolumeDataForTab [simp]:
  "messageQueues (snd (getVolumeDataForTab st t u)) = messageQueues st"
  "sent (snd (getVolumeDataForTab st t u)) = sent st"
  "responses (snd (getVolumeDataForTab st t u)) = responses st"
  "timers (snd (getVolumeDataForTab st t u)) = timers st"
  using qcore_getVolumeDataForTab [of st t u] by (simp_all add: qcore_def)

lemma frame_saveTabVolume [simp]:
  "messageQueues (saveTabVolume st t r u) = messageQueues st"
  "sent (saveTabVolume st t r u) = sent st"
  "responses (saveTabVolume st t r u) = responses st"
  "timers (saveTabVolume st t r u) = timers st"
  using qcore_saveTabVolume [of st t r u] by (simp_all add: qcore_def)

lemma frame_alloc [simp]:
  "messageQueues (snd (alloc st v)) = messageQueues st"
  "sent (snd (alloc st v)) = sent st"
  "responses (snd (alloc st v)) = responses st"
  "timers (snd (alloc st v)) = timers st"
  by (simp_all add: alloc_def)

lemma frame_sendMessageToTab [simp]:
  "messageQueues (sendMessageToTab st t m rc) = messageQueues st"
  "responses (sendMessageToTab st t m rc) = responses st"
  "heap (sendMessageToTab st t m rc) = heap st"
  "timers (sendMessageToTab st t m rc) = timers st"
  by (simp_all add: sendMessageToTab_def)

lemma frame_applyVolumeToTab [simp]:
  "messageQueues (applyVolumeToTab st t vd) = messageQueues st"
  "responses (applyVolumeToTab st t vd) = responses st"
  "heap (applyVolumeToTab st t vd) = heap st"
  "timers (applyVolumeToTab st t vd) = timers st"
  by (simp_all add: applyVolumeToTab_def)

lemma frame_processMessageQueue [simp]:
  "responses (processMessageQueue st t now) = responses st"
  "heap (processMessageQueue st t now) = heap st"
  "timers (processMessageQueue st t now) = timers st"
  using core_processMessageQueue [of st t now] by (simp_all add: core_def)

lemma frame_respond [simp]:
  "heap_ok (respond st x) = heap_ok st"
  "queues_ok (respond st x) = queues_ok st"
  "responses (respond st x) = responses st @ [x]"
  by (simp_all add: respond_def heap_ok_def queues_ok_def)

lemma heap_ok_tab_upd:
  "heap_ok st \<Longrightarrow> r < length (heap st) \<Longrightarrow>
   heap_ok (st\<lparr>tabVolumeSettings := (tabVolumeSettings st)(k \<mapsto> r)\<rparr>)"
  by (auto simp: heap_ok_def)

lemma heap_ok_timer_add:
  "heap_ok st \<Longrightarrow> (\<And>k r. t = ApplyVolumeTimer k r \<Longrightarrow> r < length (heap st)) \<Longrightarrow>
   heap_ok (st\<lparr>timers := timers st @ [t]\<rparr>)"
  by (auto simp: heap_ok_def)

lemma heap_ok_set_field:
  assumes "heap_ok st" "r < length (heap st)"
  shows "heap_ok (st\<lparr>heap := (heap st)[r := (heap st ! r)\<lparr>hasAudio := v\<rparr>]\<rparr>)"
proof -
  have "validRecord (heap st ! r)" using assms by (simp add: heap_ok_def)
  then show ?thesis
    using assms by (intro heap_ok_update) (simp_all add: validRecord_hasAudio)
qed

lemma heap_ok_audibleStarted:
  assumes "heap_ok st"
  shows "heap_ok (audibleStarted st tabId tb)"
proof -
  define s1 where "s1 = st\<lparr>audibleTabs := insert tabId (audibleTabs st)\<rparr>"
  obtain r s2 where g: "getVolumeDataForTab s1 tabId (tab_url tb) = (r, s2)"
    by (cases "getVolumeDataForTab s1 tabId (tab_url tb)")
  have "heap_ok s1" using assms by (simp add: s1_def heap_ok_def)
  from heap_ok_getVolumeDataForTab [OF this, of tabId "tab_url tb"] g
  have h2: "heap_ok s2" and r: "r < length (heap s2)" by simp_all
  define s3 where "s3 = s2\<lparr>heap := (heap s2)[r := (heap s2 ! r)\<lparr>hasAudio := JBool True\<rparr>]\<rparr>"
  have h3: "heap_ok s3" and r3: "r < length (heap s3)"
    using heap_ok_set_field [OF h2 r] r by (simp_all add: s3_def)
  define s4 where "s4 = s3\<lparr>tabVolumeSettings := (tabVolumeSettings s3)(tabId \<mapsto> r)\<rparr>"
  have h4: "heap_ok s4" and r4: "r < length (heap s4)"
    using heap_ok_tab_upd [OF h3 r3] r3 by (simp_all add: s4_def)
  define s5 where "s5 = saveTabVolume s4 tabId r (tab_url tb)"
  have h5: "heap_ok s5" and r5: "r < length (heap s5)"
    using heap_ok_saveTabVolume [OF h4 r4] r4 by (simp_all add: s5_def)
  have e: "audibleStarted st tabId tb = s5\<lparr>timers := timers s5 @ [ApplyVolumeTimer tabId r]\<rparr>"
    using g unfolding s5_def s4_def s3_def
    by (simp add: audibleStarted_def Let_def s1_def)
  have "heap_ok (s5\<lparr>timers := timers s5 @ [ApplyVolumeTimer tabId r]\<rparr>)"
    using r5 by (intro heap_ok_timer_add [OF h5]) simp
  then show ?thesis by (simp only: e)
qed

lemma messageQueues_audibleStarted [simp]:
  "messageQueues (audibleStarted st tabId tb) = messageQueues st"
  by (simp add: audibleStarted_def Let_def case_prod_beta)

lemma heap_ok_urlChanged: "heap_ok st \<Longrightarrow> heap_ok (urlChanged st u tb)"
  by (auto simp: urlChanged_def heap_ok_def Let_def split: option.splits)

lemma messageQueues_urlChanged [simp]:
  "messageQueues (urlChanged st u tb) = messageQueues st"
  by (simp add: urlChanged_def Let_def split: option.splits)

lemma heap_ok_onUpdated:
  assumes "heap_ok st"
  shows "heap_ok (onUpdated st tabId ci tb)"
proof -
  have a: "heap_ok (s\<lparr>timers := timers s @ [ProcessQueueTimer tabId]\<rparr>)" if "heap_ok s" for s
    using that by (intro heap_ok_timer_add) simp_all
  have b: "heap_ok (s\<lparr>broadcasts := x\<rparr>) = heap_ok s" for s x
    by (simp add: heap_ok_def)
  have c: "heap_ok (s\<lparr>audibleTabs := x\<rparr>) = heap_ok s" for s x
    by (simp add: heap_ok_def)
  show ?thesis
    using assms
    by (simp add: onUpdated_def Let_def a b c heap_ok_audibleStarted heap_ok_urlChanged)
qed

lemma queues_ok_onUpdated: "queues_ok st \<Longrightarrow> queues_ok (onUpdated st tabId ci tb)"
  by (simp add: onUpdated_def Let_def queues_ok_def)

lemma heap_ok_onRemoved: "heap_ok st \<Longrightarrow> heap_ok (onRemoved st tabId)"
  by (auto simp: onRemoved_def heap_ok_def split: if_splits)

lemma queues_ok_onRemoved: "queues_ok st \<Longrightarrow> queues_ok (onRemoved st tabId)"
  using set_AList_delete [of tabId "messageQueues st"]
  by (auto simp: onRemoved_def queues_ok_def distinct_delete)

lemma heap_ok_timerFired:
  assumes "heap_ok st"
  shows "heap_ok (timerFired st i now)"
proof (cases "i < length (timers st)")
  case False
  then show ?thesis using assms by (simp add: timerFired_def)
next
  case True
  define s where "s = st\<lparr>timers := take i (timers st) @ drop (Suc i) (timers st)\<rparr>"
  have "set (take i (timers st) @ drop (Suc i) (timers st)) \<subseteq> set (timers st)"
    by (auto dest: in_set_takeD in_set_dropD)
  then have s: "heap_ok s" using assms by (auto simp: heap_ok_def s_def)
  have "heap_ok (runTimer s t now)" for t
    using s heap_ok_core [of "processMessageQueue s k now" s for k]
      heap_ok_core [of "applyVolumeToTab s k vd" s for k vd]
    by (simp add: runTimer_def split: timer.splits)
  then show ?thesis using True by (simp add: timerFired_def s_def)
qed

lemma queues_ok_timerFired:
  assumes "queues_ok st"
  shows "queues_ok (timerFired st i now)"
proof -
  have "queues_ok (runTimer s t now)" if "queues_ok s" for s t
    using that by (simp add: runTimer_def queues_ok_processMessageQueue split: timer.splits)
  moreover have "queues_ok (st\<lparr>timers := x\<rparr>)" for x
    using assms by (simp add: queues_ok_def)
  ultimately show ?thesis using assms by (simp add: timerFired_def)
qed

lemma updateTabVolumeCallback_unfold:
  assumes g: "getVolumeDataForTab st tabId (tab_url tb) = (r, s1)"
  shows "updateTabVolumeCallback st tabId vol mut prev tb =
     (let newVolumeData =
            (heap s1 ! r)\<lparr>volume := (if vol \<noteq> JUndefined then vol else volume (heap s1 ! r)),
                       muted := (if mut \<noteq> JUndefined then mut else muted (heap s1 ! r)),
                       previousVolume := (if prev \<noteq> JUndefined then prev
                                          else previousVolume (heap s1 ! r)),
                       hasAudio := JBool True\<rparr>;
          s3 = s1\<lparr>heap := heap s1 @ [newVolumeData],
                  tabVolumeSettings := (tabVolumeSettings s1)(tabId \<mapsto> length (heap s1))\<rparr>;
          s4 = saveTabVolume s3 tabId (length (heap s1)) (tab_url tb)
      in respond (applyVolumeToTab s4 tabId (heap s4 ! length (heap s1))) Success)"
  by (simp add: updateTabVolumeCallback_def g Let_def alloc_def)

lemma heap_ok_updateTabVolumeCallback:
  assumes "heap_ok st" "vol \<noteq> JUndefined \<longrightarrow> isValidVolume vol"
    "prev \<noteq> JUndefined \<longrightarrow> isValidVolume prev"
  shows "heap_ok (updateTabVolumeCallback st tabId vol mut prev tb)"
proof -
  obtain r s1 where g: "getVolumeDataForTab st tabId (tab_url tb) = (r, s1)"
    by (cases "getVolumeDataForTab st tabId (tab_url tb)")
  from heap_ok_getVolumeDataForTab [OF assms(1), of tabId "tab_url tb"] g
  have h1: "heap_ok s1" and r: "r < length (heap s1)" by simp_all
  then have vr: "validRecord (heap s1 ! r)" by (simp add: heap_ok_def)
  define nd where "nd = (heap s1 ! r)\<lparr>volume := (if vol \<noteq> JUndefined then vol else volume (heap s1 ! r)),
                       muted := (if mut \<noteq> JUndefined then mut else muted (heap s1 ! r)),
                       previousVolume := (if prev \<noteq> JUndefined then prev
                                          else previousVolume (heap s1 ! r)),
                       hasAudio := JBool True\<rparr>"
  have vn: "validRecord nd" using vr assms(2,3) by (simp add: nd_def validRecord_def)
  define s3 where "s3 = s1\<lparr>heap := heap s1 @ [nd],
                  tabVolumeSettings := (tabVolumeSettings s1)(tabId \<mapsto> length (heap s1))\<rparr>"
  have h3: "heap_ok s3" using h1 vn by (auto simp: heap_ok_def s3_def less_Suc_eq)
  have l3: "length (heap s1) < length (heap s3)" by (simp add: s3_def)
  define s4 where "s4 = saveTabVolume s3 tabId (length (heap s1)) (tab_url tb)"
  have h4: "heap_ok s4" unfolding s4_def by (rule heap_ok_saveTabVolume [OF h3 l3])
  have e: "updateTabVolumeCallback st tabId vol mut prev tb
        = respond (applyVolumeToTab s4 tabId (heap s4 ! length (heap s1))) Success"
    unfolding updateTabVolumeCallback_unfold [OF g] s4_def s3_def nd_def Let_def ..
  show ?thesis
    unfolding e using h4 heap_ok_core [OF core_applyVolumeToTab] by simp
qed

lemma messageQueues_updateTabVolumeCallback [simp]:
  "messageQueues (updateTabVolumeCallback st tabId vol mut prev tb) = messageQueues st"
  by (simp add: updateTabVolumeCallback_def Let_def case_prod_beta respond_def)

lemma responses_updateTabVolumeCallback [simp]:
  "responses (updateTabVolumeCallback st tabId vol mut prev tb) = responses st @ [Success]"
  by (simp add: updateTabVolumeCallback_def Let_def case_prod_beta)

lemma heap_ok_handleUpdateTabVolume:
  "heap_ok st \<Longrightarrow> handleUpdateTabVolume tabsGet st msg = Returned st' \<Longrightarrow> heap_ok st'"
  by (auto simp: handleUpdateTabVolume_def Let_def heap_ok_updateTabVolumeCallback
      split: if_splits tabs_get_result.splits)

lemma queues_ok_handleUpdateTabVolume:
  "queues_ok st \<Longrightarrow> handleUpdateTabVolume tabsGet st msg = Returned st' \<Longrightarrow> queues_ok st'"
  by (auto simp: handleUpdateTabVolume_def Let_def queues_ok_def [of "updateTabVolumeCallback _ _ _ _ _ _"]
      queues_ok_def [of st, symmetric]
      split: if_splits tabs_get_result.splits)

lemma heap_ok_handleContentScriptReady:
  "heap_ok st \<Longrightarrow> heap_ok (handleContentScriptReady st tabId now)"
  using heap_ok_core [OF core_processMessageQueue]
  by (simp add: handleContentScriptReady_def)

lemma queues_ok_handleContentScriptReady:
  "queues_ok st \<Longrightarrow> queues_ok (handleContentScriptReady st tabId now)"
  by (simp add: handleContentScriptReady_def queues_ok_processMessageQueue)

lemma attachVolumeData_inv:
  "heap_ok st \<Longrightarrow> heap_ok (snd (attachVolumeData st tbs)) \<and>
     messageQueues (snd (attachVolumeData st tbs)) = messageQueues st \<and>
     responses (snd (attachVolumeData st tbs)) = responses st"
proof (induction tbs arbitrary: st)
  case Nil
  then show ?case by simp
next
  case (Cons tb tbs)
  obtain r s1 where g: "getVolumeDataForTab st (tab_id tb) (tab_url tb) = (r, s1)"
    by (cases "getVolumeDataForTab st (tab_id tb) (tab_url tb)")
  from heap_ok_getVolumeDataForTab [OF Cons.prems, of "tab_id tb" "tab_url tb"] g
  have h1: "heap_ok s1" by simp
  have f: "messageQueues s1 = messageQueues st" "responses s1 = responses st"
    using frame_getVolumeDataForTab [of st "tab_id tb" "tab_url tb"] g by simp_all
  show ?case
    using Cons.IH [OF h1] f by (simp add: g case_prod_beta)
qed

lemma heap_ok_handleGetAudibleTabs:
  "heap_ok st \<Longrightarrow> heap_ok (handleGetAudibleTabs st tabs)"
  using attachVolumeData_inv [of st "filter (relevantTab st) tabs"]
  by (simp add: handleGetAudibleTabs_def Let_def case_prod_beta)

lemma messageQueues_handleGetAudibleTabs [simp]:
  "messageQueues (handleGetAudibleTabs st tabs) = messageQueues st"
proof -
  have "messageQueues (snd (attachVolumeData s tbs)) = messageQueues s" for s tbs
    by (induction tbs arbitrary: s) (simp_all add: case_prod_beta)
  then show ?thesis
    by (simp add: handleGetAudibleTabs_def Let_def case_prod_beta respond_def)
qed

lemma heap_ok_handleGetAudioStatus:
  "heap_ok st \<Longrightarrow> heap_ok (handleGetAudioStatus st tabId url)"
  using heap_ok_getVolumeDataForTab [of st tabId url]
  by (simp add: handleGetAudioStatus_def Let_def case_prod_beta)

lemma messageQueues_handleGetAudioStatus [simp]:
  "messageQueues (handleGetAudioStatus st tabId url) = messageQueues st"
  by (simp add: handleGetAudioStatus_def Let_def case_prod_beta respond_def)

lemma heap_ok_handleUpdateTabStatus:
  assumes "heap_ok st"
  shows "heap_ok (handleUpdateTabStatus st tabId url msg)"
proof -
  obtain r s1 where g: "getVolumeDataForTab st tabId url = (r, s1)"
    by (cases "getVolumeDataForTab st tabId url")
  from heap_ok_getVolumeDataForTab [OF assms, of tabId url] g
  have h1: "heap_ok s1" and r: "r < length (heap s1)" by simp_all
  define s2 where "s2 = s1\<lparr>heap := (heap s1)[r := (heap s1 ! r)\<lparr>hasAudio := fld msg ''hasAudio''\<rparr>]\<rparr>"
  have h2: "heap_ok s2" and r2: "r < length (heap s2)"
    using heap_ok_set_field [OF h1 r] r by (simp_all add: s2_def)
  define s3 where "s3 = s2\<lparr>tabVolumeSettings := (tabVolumeSettings s2)(tabId \<mapsto> r)\<rparr>"
  have h3: "heap_ok s3" and r3: "r < length (heap s3)"
    using heap_ok_tab_upd [OF h2 r2] r2 by (simp_all add: s3_def)
  have h4: "heap_ok (saveTabVolume s3 tabId r url)"
    by (rule heap_ok_saveTabVolume [OF h3 r3])
  have e: "isValidTabId tabId \<Longrightarrow> typeof_boolean (fld msg ''hasAudio'') \<Longrightarrow>
      handleUpdateTabStatus st tabId url msg = respond (saveTabVolume s3 tabId r url) Success"
    using g unfolding s3_def s2_def by (simp add: handleUpdateTabStatus_def Let_def)
  show ?thesis
  proof (cases "isValidTabId tabId \<and> typeof_boolean (fld msg ''hasAudio'')")
    case True
    then show ?thesis using e h4 by simp
  next
    case False
    then show ?thesis using assms by (auto simp: handleUpdateTabStatus_def)
  qed
qed

lemma messageQueues_handleUpdateTabStatus [simp]:
  "messageQueues (handleUpdateTabStatus st tabId url msg) = messageQueues st"
  by (simp add: handleUpdateTabStatus_def Let_def case_prod_beta respond_def)

lemma heap_ok_dispatch:
  "heap_ok st \<Longrightarrow> dispatch tabsGet tabsQuery now st sd msg = Returned st' \<Longrightarrow> heap_ok st'"
  by (auto simp: dispatch_def heap_ok_handleContentScriptReady heap_ok_handleGetAudibleTabs
      heap_ok_handleGetAudioStatus heap_ok_handleUpdateTabStatus
      split: if_splits dest: heap_ok_handleUpdateTabVolume)

lemma queues_ok_dispatch:
  "queues_ok st \<Longrightarrow> dispatch tabsGet tabsQuery now st sd msg = Returned st' \<Longrightarrow> queues_ok st'"
  by (auto simp: dispatch_def queues_ok_handleContentScriptReady
      queues_ok_def [of "handleGetAudibleTabs _ _"] queues_ok_def [of "handleGetAudioStatus _ _ _"]
      queues_ok_def [of "handleUpdateTabStatus _ _ _ _"] queues_ok_def [of st, symmetric]
      split: if_splits dest: queues_ok_handleUpdateTabVolume)

lemma heap_ok_onMessage:
  "heap_ok st \<Longrightarrow> heap_ok (onMessage rt tabsGet tabsQuery now st sd msg)"
  by (auto simp: onMessage_def split: outcome.splits dest: heap_ok_dispatch)

lemma queues_ok_onMessage:
  "queues_ok st \<Longrightarrow> queues_ok (onMessage rt tabsGet tabsQuery now st sd msg)"
  by (auto simp: onMessage_def split: outcome.splits dest: queues_ok_dispatch)

lemma heap_ok_loadItem: 
  assumes "heap_ok st"
  shows "heap_ok (loadItem kv st)"
proof -
  have a: "heap_ok (s\<lparr>heap := heap s @ [validateVolumeData v],
                     tabVolumeSettings := (tabVolumeSettings s)(k \<mapsto> length (heap s))\<rparr>)"
    if "heap_ok s" for s v k
    using that validRecord_validate [of v] by (auto simp: heap_ok_def less_Suc_eq)
  have b: "heap_ok (s\<lparr>heap := heap s @ [validateVolumeData v],
                     urlVolumeSettings := (urlVolumeSettings s)(JStr u \<mapsto> length (heap s))\<rparr>)"
    if "heap_ok s" "u \<noteq> []" for s v u
    using that validRecord_validate [of v] by (auto simp: heap_ok_def less_Suc_eq)
  show ?thesis
    using assms by (simp add: loadItem_def Let_def alloc_def a b)
qed

lemma messageQueues_loadItem [simp]: "messageQueues (loadItem kv st) = messageQueues st"
  by (simp add: loadItem_def Let_def alloc_def)

lemma heap_ok_storageLoaded: "heap_ok st \<Longrightarrow> heap_ok (storageLoaded st e items)"
proof -
  have "heap_ok s \<Longrightarrow> heap_ok (fold loadItem items s)" for s
    by (induction items arbitrary: s) (simp_all add: heap_ok_loadItem)
  then show "heap_ok st \<Longrightarrow> heap_ok (storageLoaded st e items)"
    by (simp add: storageLoaded_def)
qed

lemma messageQueues_storageLoaded [simp]:
  "messageQueues (storageLoaded st e items) = messageQueues st"
proof -
  have "messageQueues (fold loadItem items s) = messageQueues s" for s
    by (induction items arbitrary: s) simp_all
  then show ?thesis by (simp add: storageLoaded_def)
qed

lemma heap_ok_sendResult: "heap_ok st \<Longrightarrow> heap_ok (sendResult st i e now)"
proof -
  have "heap_ok (sendMessageCallback (st\<lparr>callbacks := x\<rparr>) k m rc e now) = heap_ok st"
    for x k m rc
    using heap_ok_core [OF core_sendMessageCallback, of "st\<lparr>callbacks := x\<rparr>" k m rc e now]
    by (simp add: heap_ok_def)
  then show "heap_ok st \<Longrightarrow> heap_ok (sendResult st i e now)"
    by (simp add: sendResult_def split: prod.splits)
qed

lemma queues_ok_sendResult: "queues_ok st \<Longrightarrow> queues_ok (sendResult st i e now)"
proof -
  have "queues_ok st \<Longrightarrow> queues_ok (st\<lparr>callbacks := x\<rparr>)" for x
    by (simp add: queues_ok_def)
  then show "queues_ok st \<Longrightarrow> queues_ok (sendResult st i e now)"
    by (simp add: sendResult_def queues_ok_sendMessageCallback split: prod.splits)
qed

lemma heap_ok_step: "heap_ok st \<Longrightarrow> heap_ok (step rt st ev)"
  using heap_ok_core [OF core_sweep]
  by (cases ev)
     (simp_all add: step_def heap_ok_storageLoaded heap_ok_onUpdated heap_ok_onRemoved
        heap_ok_onMessage heap_ok_timerFired heap_ok_sendResult)

lemma queues_ok_step: "queues_ok st \<Longrightarrow> queues_ok (step rt st ev)"
  by (cases ev)
     (simp_all add: step_def queues_ok_onUpdated queues_ok_onRemoved queues_ok_onMessage
        queues_ok_timerFired queues_ok_sweep queues_ok_sendResult
        queues_ok_def [of "storageLoaded _ _ _"] queues_ok_def [of st, symmetric])

lemma reachable_heap_ok: "reachable rt st \<Longrightarrow> heap_ok st"
  by (induction rule: reachable.induct)
     (simp_all add: heap_ok_step, simp add: heap_ok_def init_state_def)

lemma reachable_queues_ok: "reachable rt st \<Longrightarrow> queues_ok st"
  by (induction rule: reachable.induct)
     (simp_all add: queues_ok_step, simp add: queues_ok_def init_state_def)


section \<open>Pending callbacks and queued entries are well formed\<close>

lemma msgs_ok_qcore:
  "qcore st' = qcore st \<Longrightarrow> callbacks st' = callbacks st \<Longrightarrow> msgs_ok st' = msgs_ok st"
  by (simp add: qcore_def msgs_ok_def)

lemma callbacks_warn [simp]: "callbacks (warn st w) = callbacks st"
  by (simp add: warn_def)

lemma callbacks_alloc [simp]: "callbacks (snd (alloc st v)) = callbacks st"
  by (simp add: alloc_def)

lemma callbacks_saveTabVolume [simp]: "callbacks (saveTabVolume st t r u) = callbacks st"
  by (simp add: saveTabVolume_def Let_def)

lemma callbacks_getVolumeDataForTab [simp]:
  "callbacks (snd (getVolumeDataForTab st t u)) = callbacks st"
  by (simp add: getVolumeDataForTab_def split: option.splits)

lemma msgs_ok_sendMessageToTab: "msgs_ok st \<Longrightarrow> msgs_ok (sendMessageToTab st t m rc)"
  by (simp add: msgs_ok_def sendMessageToTab_def)

lemma msgs_ok_applyVolumeToTab: "msgs_ok st \<Longrightarrow> msgs_ok (applyVolumeToTab st t vd)"
  by (simp add: applyVolumeToTab_def msgs_ok_sendMessageToTab)

lemma msgs_ok_update:
  assumes "msgs_ok st" "isValidTabId k" "\<forall>e \<in> set q. validMessageFormat (message e)"
  shows "msgs_ok (st\<lparr>messageQueues := AList.update k q (messageQueues st)\<rparr>)"
  using assms set_AList_update [of k q "messageQueues st"]
  by (auto simp: msgs_ok_def)

lemma msgs_ok_lookup:
  "msgs_ok st \<Longrightarrow> map_of (messageQueues st) k = Some q \<Longrightarrow>
   isValidTabId k \<and> (\<forall>e \<in> set q. validMessageFormat (message e))"
  by (auto simp: msgs_ok_def dest!: map_of_SomeD)

lemma msgs_ok_sendMessageCallback:
  assumes "msgs_ok st" "isValidTabId tabId" "validMessageFormat m"
  shows "msgs_ok (sendMessageCallback st tabId m rc e now)"
proof (cases e)
  case False
  then show ?thesis using assms by (simp add: sendMessageCallback_def)
next
  case True
  define qs where "qs = (if map_of (messageQueues st) tabId = None
                  then AList.update tabId [] (messageQueues st)
                  else messageQueues st)"
  define s1 where "s1 = st\<lparr>messageQueues := qs\<rparr>"
  have s1: "msgs_ok s1"
    using msgs_ok_update [OF assms(1,2), of "[]"] assms(1)
    by (auto simp: s1_def qs_def)
  have mq: "messageQueues s1 = qs" by (simp add: s1_def)
  define queue where "queue = (case map_of qs tabId of Some q \<Rightarrow> q | None \<Rightarrow> [])"
  have q: "\<forall>e \<in> set queue. validMessageFormat (message e)"
  proof (cases "map_of qs tabId")
    case None
    then show ?thesis by (simp add: queue_def)
  next
    case (Some q')
    then show ?thesis
      using msgs_ok_lookup [OF s1, of tabId q'] mq by (simp add: queue_def)
  qed
  have a: "msgs_ok (s1\<lparr>messageQueues := AList.update tabId
            (queue @ [\<lparr>message = m, retryCount = rc + 1, time = now\<rparr>]) (messageQueues s1)\<rparr>)"
    using q assms(3) by (intro msgs_ok_update [OF s1 assms(2)]) auto
  have b: "msgs_ok (warn s1 (QueueOverflow tabId))"
    using s1 by (simp add: msgs_ok_def warn_def)
  show ?thesis
    using True a b
    by (simp add: sendMessageCallback_def Let_def qs_def [symmetric] queue_def [symmetric] s1_def)
qed

lemma msgs_ok_sendResult:
  assumes "msgs_ok st"
  shows "msgs_ok (sendResult st i e now)"
proof (cases "i < length (callbacks st)")
  case False
  then show ?thesis using assms by (simp add: sendResult_def)
next
  case True
  obtain k m rc where c: "callbacks st ! i = (k, m, rc)" by (cases "callbacks st ! i")
  have "(k, m, rc) \<in> set (callbacks st)" using True c by (metis nth_mem)
  then have v: "isValidTabId k" "validMessageFormat m"
    using assms by (auto simp: msgs_ok_def)
  define s where "s = st\<lparr>callbacks := take i (callbacks st) @ drop (Suc i) (callbacks st)\<rparr>"
  have "set (take i (callbacks st) @ drop (Suc i) (callbacks st)) \<subseteq> set (callbacks st)"
    by (auto dest: in_set_takeD in_set_dropD)
  then have "msgs_ok s" using assms by (auto simp: msgs_ok_def s_def)
  then have "msgs_ok (sendMessageCallback s k m rc e now)"
    using v by (rule msgs_ok_sendMessageCallback)
  then show ?thesis using True c by (simp add: sendResult_def s_def)
qed

lemma msgs_ok_processItem:
  assumes "msgs_ok st" "isValidTabId tabId"
  shows "msgs_ok (processItem tabId now item st)"
proof (cases "validMessageFormat (message item)")
  case False
  then show ?thesis using assms by (simp add: processItem_def)
next
  case True
  have "msgs_ok (st\<lparr>messageQueues := AList.update tabId (q @ [item]) (messageQueues st)\<rparr>)"
    if "map_of (messageQueues st) tabId = Some q" for q
    using msgs_ok_lookup [OF assms(1) that] True
    by (intro msgs_ok_update [OF assms]) auto
  moreover have "msgs_ok (warn st w)" for w
    using assms by (simp add: msgs_ok_def warn_def)
  ultimately show ?thesis
    using assms by (simp add: processItem_def msgs_ok_sendMessageToTab split: option.splits)
qed

lemma msgs_ok_fold_processItem:
  "msgs_ok st \<Longrightarrow> isValidTabId tabId \<Longrightarrow> msgs_ok (fold (processItem tabId now) items st)"
  by (induction items arbitrary: st) (simp_all add: msgs_ok_processItem)

lemma msgs_ok_processMessageQueue:
  assumes "msgs_ok st"
  shows "msgs_ok (processMessageQueue st tabId now)"
proof (cases "isValidTabId tabId")
  case False
  then show ?thesis using assms by (simp add: processMessageQueue_def)
next
  case True
  have "msgs_ok (st\<lparr>messageQueues := AList.update tabId [] (messageQueues st)\<rparr>)"
    by (intro msgs_ok_update [OF assms True]) simp
  then show ?thesis
    using assms True
    by (simp add: processMessageQueue_def msgs_ok_fold_processItem split: option.splits)
qed

lemma msgs_ok_sweep: "msgs_ok st \<Longrightarrow> msgs_ok (sweep st now)"
proof -
  have "msgs_ok s \<Longrightarrow> msgs_ok (fold (\<lambda>tabId s. processMessageQueue s tabId now) ks s)" for ks s
    by (induction ks arbitrary: s) (simp_all add: msgs_ok_processMessageQueue)
  then show "msgs_ok st \<Longrightarrow> msgs_ok (sweep st now)" by (simp add: sweep_def)
qed

lemma msgs_ok_respond [simp]: "msgs_ok (respond st x) = msgs_ok st"
  by (simp add: respond_def msgs_ok_def)

lemma msgs_ok_audibleStarted: "msgs_ok st \<Longrightarrow> msgs_ok (audibleStarted st tabId tb)"
  by (simp add: audibleStarted_def Let_def case_prod_beta msgs_ok_def)

lemma msgs_ok_urlChanged: "msgs_ok st \<Longrightarrow> msgs_ok (urlChanged st u tb)"
  by (simp add: urlChanged_def Let_def msgs_ok_def split: option.splits)

lemma msgs_ok_onUpdated: "msgs_ok st \<Longrightarrow> msgs_ok (onUpdated st tabId ci tb)"
proof -
  have a: "msgs_ok (s\<lparr>timers := x\<rparr>) = msgs_ok s" for s x by (simp add: msgs_ok_def)
  have b: "msgs_ok (s\<lparr>broadcasts := x\<rparr>) = msgs_ok s" for s x by (simp add: msgs_ok_def)
  have c: "msgs_ok (s\<lparr>audibleTabs := x\<rparr>) = msgs_ok s" for s x by (simp add: msgs_ok_def)
  show "msgs_ok st \<Longrightarrow> msgs_ok (onUpdated st tabId ci tb)"
    by (simp add: onUpdated_def Let_def a b c msgs_ok_audibleStarted msgs_ok_urlChanged)
qed

lemma msgs_ok_onRemoved: "msgs_ok st \<Longrightarrow> msgs_ok (onRemoved st tabId)"
  using set_AList_delete [of tabId "messageQueues st"]
  by (auto simp: onRemoved_def msgs_ok_def)

lemma msgs_ok_timerFired:
  assumes "msgs_ok st"
  shows "msgs_ok (timerFired st i now)"
proof -
  have "msgs_ok (runTimer s t now)" if "msgs_ok s" for s t
    using that
    by (simp add: runTimer_def msgs_ok_processMessageQueue msgs_ok_applyVolumeToTab
        split: timer.splits)
  moreover have "msgs_ok (st\<lparr>timers := x\<rparr>)" for x
    using assms by (simp add: msgs_ok_def)
  ultimately show ?thesis using assms by (simp add: timerFired_def)
qed

lemma msgs_ok_updateTabVolumeCallback:
  assumes "msgs_ok st"
  shows "msgs_ok (updateTabVolumeCallback st tabId vol mut prev tb)"
proof -
  have "msgs_ok s" if "messageQueues s = messageQueues st" "callbacks s = callbacks st" for s
    using assms that by (simp add: msgs_ok_def)
  then show ?thesis
    by (simp add: updateTabVolumeCallback_def Let_def case_prod_beta msgs_ok_applyVolumeToTab)
qed

lemma msgs_ok_attachVolumeData:
  "messageQueues (snd (attachVolumeData st tbs)) = messageQueues st \<and>
   callbacks (snd (attachVolumeData st tbs)) = callbacks st"
  by (induction tbs arbitrary: st) (simp_all add: case_prod_beta)

lemma msgs_ok_dispatch:
  assumes "msgs_ok st" "dispatch tabsGet tabsQuery now st sd msg = Returned st'"
  shows "msgs_ok st'"
proof -
  have f: "msgs_ok s" if "messageQueues s = messageQueues st" "callbacks s = callbacks st" for s
    using assms(1) that by (simp add: msgs_ok_def)
  have a: "msgs_ok (handleContentScriptReady st k now)" for k
    using assms(1) by (simp add: handleContentScriptReady_def msgs_ok_processMessageQueue)
  have b: "msgs_ok (handleGetAudibleTabs st tabsQuery)"
    using msgs_ok_attachVolumeData [of st "filter (relevantTab st) tabsQuery"]
    by (simp add: handleGetAudibleTabs_def Let_def case_prod_beta f)
  have c: "msgs_ok (handleGetAudioStatus st k u)" for k u
    using assms(1) by (simp add: handleGetAudioStatus_def Let_def case_prod_beta f)
  have d: "msgs_ok (handleUpdateTabStatus st k u msg)" for k u
    using assms(1) by (simp add: handleUpdateTabStatus_def Let_def case_prod_beta f)
  have e: "msgs_ok s" if "handleUpdateTabVolume tabsGet st msg = Returned s" for s
    using that assms(1)
    by (auto simp: handleUpdateTabVolume_def Let_def msgs_ok_updateTabVolumeCallback
        split: if_splits tabs_get_result.splits)
  show ?thesis
    using assms(2) a b c d e by (auto simp: dispatch_def split: if_splits)
qed

lemma msgs_ok_onMessage:
  "msgs_ok st \<Longrightarrow> msgs_ok (onMessage rt tabsGet tabsQuery now st sd msg)"
  by (auto simp: onMessage_def split: outcome.splits dest: msgs_ok_dispatch)

lemma msgs_ok_storageLoaded: "msgs_ok st \<Longrightarrow> msgs_ok (storageLoaded st e items)"
proof -
  have "callbacks (loadItem kv s) = callbacks s" for kv s
    by (simp add: loadItem_def Let_def alloc_def)
  then have "callbacks (fold loadItem items s) = callbacks s" for s
    by (induction items arbitrary: s) simp_all
  then have "callbacks (storageLoaded st e items) = callbacks st"
    by (simp add: storageLoaded_def)
  then show "msgs_ok st \<Longrightarrow> msgs_ok (storageLoaded st e items)"
    by (simp add: msgs_ok_def)
qed

lemma msgs_ok_step: "msgs_ok st \<Longrightarrow> msgs_ok (step rt st ev)"
  by (cases ev)
     (simp_all add: step_def msgs_ok_storageLoaded msgs_ok_onUpdated msgs_ok_onRemoved
        msgs_ok_onMessage msgs_ok_timerFired msgs_ok_sweep msgs_ok_sendResult)

lemma reachable_msgs_ok: "reachable rt st \<Longrightarrow> msgs_ok st"
  by (induction rule: reachable.induct)
     (simp_all add: msgs_ok_step, simp add: msgs_ok_def init_state_def)

section \<open>What a sweep does to a queue\<close>

lemma fold_processItem_effect:
  assumes "isValidTabId tabId"
    and "map_of (messageQueues st) tabId = Some acc"
    and "length acc + length items \<le> MAX_QUEUE_SIZE"
    and "\<forall>e \<in> set items. validMessageFormat (message e)"
  shows "sent (fold (processItem tabId now) items st) =
           sent st @ map (\<lambda>e. (tabId, message e, retryCount e))
             (filter (\<lambda>e. 1000 \<le> now - time e \<and> now - time e < 60000 \<and>
                           retryCount e < MAX_RETRIES) items) \<and>
         map_of (messageQueues (fold (processItem tabId now) items st)) tabId =
           Some (acc @ filter (\<lambda>e. now - time e < 1000) items)"
  using assms(2-4)
proof (induction items arbitrary: st acc)
  case Nil
  then show ?case by simp
next
  case (Cons e items)
  have v: "validMessageFormat (message e)" using Cons.prems(3) by simp
  have rest: "\<forall>e \<in> set items. validMessageFormat (message e)" using Cons.prems(3) by simp
  consider (young) "now - time e < 1000"
    | (retry) "1000 \<le> now - time e" "now - time e < 60000" "retryCount e < MAX_RETRIES"
    | (ceiling) "1000 \<le> now - time e" "now - time e < 60000" "\<not> retryCount e < MAX_RETRIES"
    | (expired) "60000 \<le> now - time e"
    by linarith
  then show ?case
  proof cases
    case young
    let ?s = "st\<lparr>messageQueues := AList.update tabId (acc @ [e]) (messageQueues st)\<rparr>"
    have lt: "length acc < MAX_QUEUE_SIZE" using Cons.prems(2) by simp
    have p: "processItem tabId now e st = ?s"
      using young v Cons.prems(1) lt by (simp add: processItem_def)
    have m: "map_of (messageQueues ?s) tabId = Some (acc @ [e])"
      by (simp add: update_conv')
    have l: "length (acc @ [e]) + length items \<le> MAX_QUEUE_SIZE"
      using Cons.prems(2) by simp
    show ?thesis
      using Cons.IH [OF m l rest] young by (simp add: p)
  next
    case retry
    let ?s = "sendMessageToTab st tabId (message e) (retryCount e)"
    have p: "processItem tabId now e st = ?s"
      using retry v by (simp add: processItem_def)
    have m: "map_of (messageQueues ?s) tabId = Some acc"
      using Cons.prems(1) by simp
    have l: "length acc + length items \<le> MAX_QUEUE_SIZE" using Cons.prems(2) by simp
    have s: "sent ?s = sent st @ [(tabId, message e, retryCount e)]"
      using retry v assms(1) by (simp add: sendMessageToTab_def)
    show ?thesis
      using Cons.IH [OF m l rest] retry by (simp add: p s)
  next
    case ceiling
    have p: "processItem tabId now e st = st"
      using ceiling v by (simp add: processItem_def sendMessageToTab_def)
    have l: "length acc + length items \<le> MAX_QUEUE_SIZE" using Cons.prems(2) by simp
    show ?thesis
      using Cons.IH [OF Cons.prems(1) l rest] ceiling by (simp add: p)
  next
    case expired
    have p: "processItem tabId now e st = warn st (DiscardingOld tabId)"
      using expired v by (simp add: processItem_def)
    have m: "map_of (messageQueues (warn st (DiscardingOld tabId))) tabId = Some acc"
      using Cons.prems(1) by (simp add: warn_def)
    have l: "length acc + length items \<le> MAX_QUEUE_SIZE" using Cons.prems(2) by simp
    have s: "sent (warn st (DiscardingOld tabId)) = sent st" by (simp add: warn_def)
    show ?thesis
      using Cons.IH [OF m l rest] expired by (simp add: p s)
  qed
qed

lemma processMessageQueue_effect:
  assumes "queues_ok st" "msgs_ok st" "map_of (messageQueues st) tabId = Some queue"
  shows "sent (processMessageQueue st tabId now) =
           sent st @ map (\<lambda>e. (tabId, message e, retryCount e))
             (filter (\<lambda>e. 1000 \<le> now - time e \<and> now - time e < 60000 \<and>
                           retryCount e < MAX_RETRIES) queue) \<and>
         map_of (messageQueues (processMessageQueue st tabId now)) tabId =
           Some (filter (\<lambda>e. now - time e < 1000) queue)"
proof (cases "queue = []")
  case True
  then show ?thesis using assms(3) by (simp add: processMessageQueue_def)
next
  case False
  have v: "isValidTabId tabId" and vm: "\<forall>e \<in> set queue. validMessageFormat (message e)"
    using msgs_ok_lookup [OF assms(2,3)] by simp_all
  have len: "length queue \<le> MAX_QUEUE_SIZE" by (rule queues_ok_lookup [OF assms(1,3)])
  let ?s = "st\<lparr>messageQueues := AList.update tabId [] (messageQueues st)\<rparr>"
  have p: "processMessageQueue st tabId now = fold (processItem tabId now) queue ?s"
    using v assms(3) False len by (simp add: processMessageQueue_def)
  have m: "map_of (messageQueues ?s) tabId = Some []" by (simp add: update_conv')
  show ?thesis
    using fold_processItem_effect [OF v m _ vm, of now] len by (simp add: p)
qed

lemma processMessageQueue_other:
  assumes "k \<noteq> tabId"
  shows "map_of (messageQueues (processMessageQueue st k now)) tabId =
         map_of (messageQueues st) tabId"
proof -
  have i: "map_of (messageQueues (processItem k now e s)) tabId = map_of (messageQueues s) tabId"
    for e s
    using assms by (simp add: processItem_def update_conv' warn_def split: option.splits)
  have f: "map_of (messageQueues (fold (processItem k now) items s)) tabId =
           map_of (messageQueues s) tabId" for items s
    by (induction items arbitrary: s) (simp_all add: i)
  show ?thesis
    using assms by (simp add: processMessageQueue_def f update_conv' split: option.splits)
qed

lemma sweep_queue:
  assumes "queues_ok st" "msgs_ok st" "map_of (messageQueues st) tabId = Some queue"
  shows "map_of (messageQueues (sweep st now)) tabId =
           Some (filter (\<lambda>e. now - time e < 1000) queue)"
proof -
  have g: "map_of (messageQueues (fold (\<lambda>k s. processMessageQueue s k now) ks s)) tabId =
           Some (if tabId \<in> set ks then filter (\<lambda>e. now - time e < 1000) q else q)"
    if "queues_ok s" "msgs_ok s" "map_of (messageQueues s) tabId = Some q" for ks s q
    using that
  proof (induction ks arbitrary: s q)
    case Nil
    then show ?case by simp
  next
    case (Cons k ks)
    let ?s = "processMessageQueue s k now"
    have q1: "queues_ok ?s" by (rule queues_ok_processMessageQueue [OF Cons.prems(1)])
    have m1: "msgs_ok ?s" by (rule msgs_ok_processMessageQueue [OF Cons.prems(2)])
    show ?case
    proof (cases "k = tabId")
      case True
      have "map_of (messageQueues ?s) tabId = Some (filter (\<lambda>e. now - time e < 1000) q)"
        using processMessageQueue_effect [OF Cons.prems, of now] True by simp
      from Cons.IH [OF q1 m1 this] True show ?thesis by simp
    next
      case False
      have "map_of (messageQueues ?s) tabId = Some q"
        using processMessageQueue_other [OF False] Cons.prems(3) by simp
      from Cons.IH [OF q1 m1 this] False show ?thesis by simp
    qed
  qed
  have "tabId \<in> set (map fst (messageQueues st))"
    using assms(3) by (metis map_of_SomeD image_eqI fst_conv set_map)
  then show ?thesis
    using g [OF assms, of "map fst (messageQueues st)"] by (simp add: sweep_def)
qed

lemma sweep_sent:
  assumes "queues_ok st" "msgs_ok st"
  shows "sent (sweep st now) =
           sent st @ concat (map (\<lambda>kq. map (\<lambda>e. (fst kq, message e, retryCount e))
             (filter (\<lambda>e. 1000 \<le> now - time e \<and> now - time e < 60000 \<and>
                           retryCount e < MAX_RETRIES) (snd kq))) (messageQueues st))"
proof -
  have g: "sent (fold (\<lambda>k s. processMessageQueue s k now) (map fst rest) s) =
           sent s @ concat (map (\<lambda>kq. map (\<lambda>e. (fst kq, message e, retryCount e))
             (filter (\<lambda>e. 1000 \<le> now - time e \<and> now - time e < 60000 \<and>
                           retryCount e < MAX_RETRIES) (snd kq))) rest)"
    if "queues_ok s" "msgs_ok s" "distinct (map fst rest)"
      "\<forall>kq \<in> set rest. map_of (messageQueues s) (fst kq) = Some (snd kq)"
    for rest s
    using that
  proof (induction rest arbitrary: s)
    case Nil
    then show ?case by simp
  next
    case (Cons kq rest)
    let ?s = "processMessageQueue s (fst kq) now"
    have m: "map_of (messageQueues s) (fst kq) = Some (snd kq)" using Cons.prems(4) by simp
    have q1: "queues_ok ?s" by (rule queues_ok_processMessageQueue [OF Cons.prems(1)])
    have m1: "msgs_ok ?s" by (rule msgs_ok_processMessageQueue [OF Cons.prems(2)])
    have d: "distinct (map fst rest)" using Cons.prems(3) by simp
    have o: "\<forall>x \<in> set rest. map_of (messageQueues ?s) (fst x) = Some (snd x)"
    proof
      fix x assume x: "x \<in> set rest"
      then have "fst kq \<noteq> fst x" using Cons.prems(3) by auto
      then show "map_of (messageQueues ?s) (fst x) = Some (snd x)"
        using processMessageQueue_other [of "fst kq" "fst x" s now] Cons.prems(4) x by simp
    qed
    show ?case
      using Cons.IH [OF q1 m1 d o] processMessageQueue_effect [OF Cons.prems(1,2) m, of now]
      by simp
  qed
  have d: "distinct (map fst (messageQueues st))" using assms(1) by (simp add: queues_ok_def)
  then have "\<forall>kq \<in> set (messageQueues st). map_of (messageQueues st) (fst kq) = Some (snd kq)"
    by simp
  from g [OF assms d this] show ?thesis by (simp add: sweep_def)
qed

section \<open>What an accepted volume update does\<close>

lemma saveTabVolume_fields:
  assumes "isValidTabId tabId" "r < length (heap st)"
  shows "tabVolumeSettings (saveTabVolume st tabId r url) = tabVolumeSettings st"
    "heap (saveTabVolume st tabId r url) =
       (if truthy url then (heap st)[r := (heap st ! r)\<lparr>tabUrl := url\<rparr>] else heap st)"
    "urlVolumeSettings (saveTabVolume st tabId r url) =
       (if truthy url then (urlVolumeSettings st)(url \<mapsto> r) else urlVolumeSettings st)"
    "storage (saveTabVolume st tabId r url) =
       storage st @ (TabKey tabId, heap st ! r) #
         (if truthy url then [(UrlKey url, (heap st ! r)\<lparr>tabUrl := url\<rparr>)] else [])"
  using assms by (simp_all add: saveTabVolume_def Let_def)

lemma updateTabVolumeCallback_effect:
  fixes vol mut prev :: jsval
  assumes v: "isValidTabId tabId"
    and g: "getVolumeDataForTab st tabId (tab_url tb) = (r, s1)"
  defines "nd \<equiv> mergeRequest (heap s1 ! r) vol mut prev"
  defines "st' \<equiv> updateTabVolumeCallback st tabId vol mut prev tb"
  shows "tabVolumeSettings st' tabId = Some (length (heap s1))"
    and "heap st' ! length (heap s1) =
           (if truthy (tab_url tb) then nd\<lparr>tabUrl := tab_url tb\<rparr> else nd)"
    and "sent st' = sent st @ [(tabId, command nd, 0)]"
    and "callbacks st' = callbacks st @ [(tabId, command nd, 0)]"
    and "storage st' = storage s1 @ (TabKey tabId, nd) #
           (if truthy (tab_url tb) then [(UrlKey (tab_url tb), nd\<lparr>tabUrl := tab_url tb\<rparr>)]
            else [])"
    and "responses st' = responses st @ [Success]"
    and "messageQueues st' = messageQueues st"
proof -
  define s3 where "s3 = s1\<lparr>heap := heap s1 @ [nd],
                  tabVolumeSettings := (tabVolumeSettings s1)(tabId \<mapsto> length (heap s1))\<rparr>"
  define s4 where "s4 = saveTabVolume s3 tabId (length (heap s1)) (tab_url tb)"
  have l3: "length (heap s1) < length (heap s3)" by (simp add: s3_def)
  have e: "st' = respond (applyVolumeToTab s4 tabId (heap s4 ! length (heap s1))) Success"
    unfolding st'_def updateTabVolumeCallback_unfold [OF g] s4_def s3_def nd_def
      mergeRequest_def Let_def ..
  note f = saveTabVolume_fields [OF v l3, of "tab_url tb", folded s4_def]
  have h3: "heap s3 ! length (heap s1) = nd" by (simp add: s3_def)
  have h4: "heap s4 ! length (heap s1) =
           (if truthy (tab_url tb) then nd\<lparr>tabUrl := tab_url tb\<rparr> else nd)"
    using f(2) h3 l3 by simp
  have c: "command (if truthy (tab_url tb) then nd\<lparr>tabUrl := tab_url tb\<rparr> else nd) = command nd"
    by (simp add: command_def)
  have vm: "validMessageFormat (command d)" for d
    by (simp add: validMessageFormat_def command_def)
  have a: "applyVolumeToTab s4 tabId d =
        s4\<lparr>sent := sent s4 @ [(tabId, command d, 0)],
           callbacks := callbacks s4 @ [(tabId, command d, 0)]\<rparr>" for d
    using v vm [of d]
    by (simp add: applyVolumeToTab_def sendMessageToTab_def MAX_RETRIES_def
        command_def [symmetric])
  have q: "sent s4 = sent st" "callbacks s4 = callbacks st" "responses s4 = responses st"
      "messageQueues s4 = messageQueues st"
    using frame_getVolumeDataForTab [of st tabId "tab_url tb"]
      callbacks_getVolumeDataForTab [of st tabId "tab_url tb"] g
    by (simp_all add: s4_def s3_def)
  show "tabVolumeSettings st' tabId = Some (length (heap s1))"
    using f(1) by (simp add: e a respond_def s3_def)
  show "heap st' ! length (heap s1) =
           (if truthy (tab_url tb) then nd\<lparr>tabUrl := tab_url tb\<rparr> else nd)"
    using h4 by (simp add: e a respond_def)
  show "sent st' = sent st @ [(tabId, command nd, 0)]"
    using q(1) c by (simp add: e a respond_def h4)
  show "callbacks st' = callbacks st @ [(tabId, command nd, 0)]"
    using q(2) c by (simp add: e a respond_def h4)
  show "storage st' = storage s1 @ (TabKey tabId, nd) #
           (if truthy (tab_url tb) then [(UrlKey (tab_url tb), nd\<lparr>tabUrl := tab_url tb\<rparr>)]
            else [])"
    using f(4) h3 by (simp add: e a respond_def) (simp add: s3_def)
  show "responses st' = responses st @ [Success]"
    using q(3) by (simp add: e a respond_def)
  show "messageQueues st' = messageQueues st"
    using q(4) by (simp add: e a respond_def)
qed

lemma fld_action_format:
  "fld msg ''action'' = JStr a \<Longrightarrow> a \<noteq> [] \<Longrightarrow> validMessageFormat msg"
  by (cases msg) (simp_all add: validMessageFormat_def)

lemma onMessage_updateTabVolume:
  assumes "authorized rt sd"
    and "fld msg ''action'' = JStr ''updateTabVolume''"
    and "isValidTabId (fld msg ''tabId'')"
    and "fld msg ''volume'' = JUndefined \<or> isValidVolume (fld msg ''volume'')"
    and "fld msg ''previousVolume'' = JUndefined \<or> isValidVolume (fld msg ''previousVolume'')"
    and "fld msg ''muted'' = JUndefined \<or> typeof_boolean (fld msg ''muted'')"
    and "tabsGet (fld msg ''tabId'') = Found tb"
  shows "onMessage rt tabsGet tabsQuery now st sd msg =
         updateTabVolumeCallback st (fld msg ''tabId'') (fld msg ''volume'') (fld msg ''muted'')
           (fld msg ''previousVolume'') tb"
proof -
  have f: "validMessageFormat msg" by (rule fld_action_format [OF assms(2)]) simp
  have "handleUpdateTabVolume tabsGet st msg =
        Returned (updateTabVolumeCallback st (fld msg ''tabId'') (fld msg ''volume'')
           (fld msg ''muted'') (fld msg ''previousVolume'') tb)"
    using assms(3-7) by (auto simp: handleUpdateTabVolume_def Let_def)
  then show ?thesis
    using assms(1,2) f by (simp add: onMessage_def dispatch_def)
qed

lemma onMessage_gate:
  "\<not> authorized rt sd \<or> \<not> validMessageFormat msg \<Longrightarrow>
   onMessage rt tabsGet tabsQuery now st sd msg = st"
  by (auto simp: onMessage_def)

lemma responses_attachVolumeData [simp]:
  "responses (snd (attachVolumeData st tbs)) = responses st"
  by (induction tbs arbitrary: st) (simp_all add: case_prod_beta)

lemma responses_handlers:
  "\<exists>x. responses (handleContentScriptReady st k now) = responses st @ [x]"
  "\<exists>x. responses (handleGetAudibleTabs st tabs) = responses st @ [x]"
  "\<exists>x. responses (handleGetAudioStatus st k u) = responses st @ [x]"
  "\<exists>x. responses (handleUpdateTabStatus st k u msg) = responses st @ [x]"
  by (simp_all add: handleContentScriptReady_def handleGetAudibleTabs_def
      handleGetAudioStatus_def handleUpdateTabStatus_def Let_def case_prod_beta)

lemma responses_handleUpdateTabVolume:
  assumes "\<forall>e. tabsGet (fld msg ''tabId'') \<noteq> Throws e"
  shows "\<exists>s x. handleUpdateTabVolume tabsGet st msg = Returned s \<and>
               responses s = responses st @ [x]"
  using assms
  by (cases "tabsGet (fld msg ''tabId'')") (simp_all add: handleUpdateTabVolume_def Let_def)

text \<open>When \<^verbatim>\<open>chrome.tabs.get\<close> rejects its arguments with an exception, the listener's
  \<^verbatim>\<open>catch\<close> responds and the listener's last statement responds again.\<close>

lemma onMessage_tabs_get_throws:
  assumes "authorized rt sd"
    and "fld msg ''action'' = JStr ''updateTabVolume''"
    and "isValidTabId (fld msg ''tabId'')"
    and "fld msg ''volume'' = JUndefined \<or> isValidVolume (fld msg ''volume'')"
    and "fld msg ''previousVolume'' = JUndefined \<or> isValidVolume (fld msg ''previousVolume'')"
    and "fld msg ''muted'' = JUndefined \<or> typeof_boolean (fld msg ''muted'')"
    and "tabsGet (fld msg ''tabId'') = Throws e"
  shows "onMessage rt tabsGet tabsQuery now st sd msg =
         st\<lparr>responses := responses st @ [Failure e, Failure ''Unknown action'']\<rparr>"
proof -
  have f: "validMessageFormat msg" by (rule fld_action_format [OF assms(2)]) simp
  have "handleUpdateTabVolume tabsGet st msg = Threw e"
    using assms(3-7) by (auto simp: handleUpdateTabVolume_def Let_def)
  then show ?thesis
    using assms(1,2) f by (simp add: onMessage_def dispatch_def respond_def)
qed

section \<open>The example runs, evaluated\<close>

lemma restored_state:
  "restored = init_state\<lparr>heap := [stored42], tabVolumeSettings := [JNum 42 \<mapsto> 0]\<rparr>"
  by (simp add: restored_def step_def storageLoaded_def loadItem_def startsWith_def alloc_def
      validateVolumeData_def Let_def isValidVolume_def getDefaultVolumeData_def init_state_def
      parseInt_def is_ws_def digit_of_def roundToDouble_def stored42_def)

lemma restored_lookup:
  "getVolumeDataForTab restored (JNum 42) u = (0, restored)"
  by (simp add: restored_state getVolumeDataForTab_def isValidTabId_def)

lemma popup_authorized: "authorized ''ext'' popup"
  by (simp add: authorized_def popup_def)

lemma step_request:
  assumes "map_of kvs ''tabId'' = Some (JNum 42)"
    and "fld (JObj kvs) ''volume'' = JUndefined \<or> isValidVolume (fld (JObj kvs) ''volume'')"
    and "fld (JObj kvs) ''previousVolume'' = JUndefined \<or>
         isValidVolume (fld (JObj kvs) ''previousVolume'')"
    and "fld (JObj kvs) ''muted'' = JUndefined \<or> typeof_boolean (fld (JObj kvs) ''muted'')"
  shows "step ''ext'' st (request kvs) =
         updateTabVolumeCallback st (JNum 42) (fld (JObj kvs) ''volume'')
           (fld (JObj kvs) ''muted'') (fld (JObj kvs) ''previousVolume'') tab42"
proof -
  let ?msg = "JObj ((''action'', JStr ''updateTabVolume'') # kvs)"
  have f: "fld ?msg ''tabId'' = JNum 42" "fld ?msg ''volume'' = fld (JObj kvs) ''volume''"
    "fld ?msg ''muted'' = fld (JObj kvs) ''muted''"
    "fld ?msg ''previousVolume'' = fld (JObj kvs) ''previousVolume''"
    "fld ?msg ''action'' = JStr ''updateTabVolume''"
    using assms(1) by simp_all
  show ?thesis
    using onMessage_updateTabVolume [of "''ext''" popup ?msg "\<lambda>tabId. Found tab42" tab42 "[]" 0 st]
      popup_authorized assms(2-4)
    unfolding f by (simp add: step_def request_def isValidTabId_def)
qed

lemma volume_zero_run:
  defines "st' \<equiv> step ''ext'' restored (request [(''tabId'', JNum 42), (''volume'', JNum 0)])"
  shows "tabVolumeSettings st' (JNum 42) = Some 1"
    and "heap st' ! 1 = \<lparr>volume = JNum 0, previousVolume = JNum 80, muted = JBool False,
            hasAudio = JBool True, isPlaying = JUndefined, tabUrl = JStr ''http://a''\<rparr>"
    and "sent st' = [(JNum 42,
            JObj [(''action'', JStr ''setVolume''), (''volume'', JNum 0),
                  (''muted'', JBool False), (''previousVolume'', JNum 80)], 0)]"
proof -
  have e: "st' = updateTabVolumeCallback restored (JNum 42) (JNum 0) JUndefined JUndefined tab42"
    unfolding st'_def by (subst step_request) (simp_all add: isValidVolume_def)
  have v: "isValidTabId (JNum 42)" by (simp add: isValidTabId_def)
  note f = updateTabVolumeCallback_effect [OF v restored_lookup [of "tab_url tab42"],
      of "JNum 0" JUndefined JUndefined, folded e]
  show "tabVolumeSettings st' (JNum 42) = Some 1"
    using f(1) by (simp add: restored_state init_state_def)
  show "heap st' ! 1 = \<lparr>volume = JNum 0, previousVolume = JNum 80, muted = JBool False,
            hasAudio = JBool True, isPlaying = JUndefined, tabUrl = JStr ''http://a''\<rparr>"
    using f(2) by (simp add: restored_state init_state_def mergeRequest_def stored42_def tab42_def)
  show "sent st' = [(JNum 42,
            JObj [(''action'', JStr ''setVolume''), (''volume'', JNum 0),
                  (''muted'', JBool False), (''previousVolume'', JNum 80)], 0)]"
    using f(3)
    by (simp add: restored_state init_state_def mergeRequest_def stored42_def command_def)
qed

lemma volume30_run:
  defines "st' \<equiv> step ''ext'' restored (request [(''tabId'', JNum 42), (''volume'', JNum 30)])"
  shows "tabVolumeSettings st' (JNum 42) = Some 1"
    and "heap st' ! 1 = \<lparr>volume = JNum 30, previousVolume = JNum 80, muted = JBool False,
            hasAudio = JBool True, isPlaying = JUndefined, tabUrl = JStr ''http://a''\<rparr>"
proof -
  have e: "st' = updateTabVolumeCallback restored (JNum 42) (JNum 30) JUndefined JUndefined tab42"
    unfolding st'_def by (subst step_request) (simp_all add: isValidVolume_def)
  have v: "isValidTabId (JNum 42)" by (simp add: isValidTabId_def)
  note f = updateTabVolumeCallback_effect [OF v restored_lookup [of "tab_url tab42"],
      of "JNum 30" JUndefined JUndefined, folded e]
  show "tabVolumeSettings st' (JNum 42) = Some 1"
    using f(1) by (simp add: restored_state init_state_def)
  show "heap st' ! 1 = \<lparr>volume = JNum 30, previousVolume = JNum 80, muted = JBool False,
            hasAudio = JBool True, isPlaying = JUndefined, tabUrl = JStr ''http://a''\<rparr>"
    using f(2) by (simp add: restored_state init_state_def mergeRequest_def stored42_def tab42_def)
qed

lemma reachable_restored: "reachable ''ext'' restored"
  unfolding restored_def by (rule reachable_step [OF reachable_init])

lemma reachable_rounds: "reachable ''ext'' st \<Longrightarrow> reachable ''ext'' (rounds n st)"
  by (induction n) (simp_all add: reachable_step)

lemma step_volume30:
  "callbacks (step ''ext'' st volume30) = callbacks st @ [(JNum 42, volume30_command, 0)]"
  "messageQueues (step ''ext'' st volume30) = messageQueues st"
  "sent (step ''ext'' st volume30) = sent st @ [(JNum 42, volume30_command, 0)]"
proof -
  obtain r s1 where g: "getVolumeDataForTab st (JNum 42) (tab_url tab42) = (r, s1)"
    by (cases "getVolumeDataForTab st (JNum 42) (tab_url tab42)")
  have v: "isValidTabId (JNum 42)" by (simp add: isValidTabId_def)
  have e: "step ''ext'' st volume30 =
      updateTabVolumeCallback st (JNum 42) (JNum 30) (JBool False) (JNum 30) tab42"
    unfolding volume30_def by (subst step_request) (simp_all add: isValidVolume_def)
  note f = updateTabVolumeCallback_effect [OF v g, of "JNum 30" "JBool False" "JNum 30",
      folded e]
  have c: "command (mergeRequest d (JNum 30) (JBool False) (JNum 30)) = volume30_command" for d
    by (simp add: command_def mergeRequest_def volume30_command_def)
  show "callbacks (step ''ext'' st volume30) = callbacks st @ [(JNum 42, volume30_command, 0)]"
    "messageQueues (step ''ext'' st volume30) = messageQueues st"
    "sent (step ''ext'' st volume30) = sent st @ [(JNum 42, volume30_command, 0)]"
    using f(3,4,7) by (simp_all add: c)
qed

lemma rounds_queue:
  "n < MAX_QUEUE_SIZE \<Longrightarrow>
   callbacks (rounds (Suc n) restored) = [] \<and>
   messageQueues (rounds (Suc n) restored) =
     [(JNum 42, replicate (Suc n)
         \<lparr>message = volume30_command, retryCount = 1, time = 0\<rparr>)]"
proof (induction n)
  case 0
  have "callbacks restored = []" "messageQueues restored = []"
    by (simp_all add: restored_state init_state_def)
  then show ?case
    by (simp add: step_def sendResult_def step_volume30 [unfolded step_def]
        sendMessageCallback_def Let_def MAX_QUEUE_SIZE_def)
next
  case (Suc n)
  then have ih: "callbacks (rounds (Suc n) restored) = []"
    "messageQueues (rounds (Suc n) restored) =
       [(JNum 42, replicate (Suc n) \<lparr>message = volume30_command, retryCount = 1, time = 0\<rparr>)]"
    by simp_all
  let ?s = "rounds (Suc n) restored"
  have a: "callbacks (step ''ext'' ?s volume30) = [(JNum 42, volume30_command, 0)]"
    "messageQueues (step ''ext'' ?s volume30) =
       [(JNum 42, replicate (Suc n) \<lparr>message = volume30_command, retryCount = 1, time = 0\<rparr>)]"
    using step_volume30 [of ?s] ih by simp_all
  have r: "rounds (Suc (Suc n)) restored = sendResult (step ''ext'' ?s volume30) 0 True 0"
    by (simp add: step_def)
  show ?case
    unfolding r using a Suc.prems
    by (simp add: sendResult_def sendMessageCallback_def Let_def replicate_append_same)
qed

lemma full_queue_state:
  "callbacks full_queue = []"
  "messageQueues full_queue =
     [(JNum 42, replicate 50 \<lparr>message = volume30_command, retryCount = 1, time = 0\<rparr>)]"
  using rounds_queue [of 49] by (simp_all add: full_queue_def MAX_QUEUE_SIZE_def)

lemma failed_once_state:
  "reachable ''ext'' failed_once"
  "messageQueues failed_once =
     [(JNum 42, [\<lparr>message = volume30_command, retryCount = 1, time = 0\<rparr>])]"
  using rounds_queue [of 0] reachable_rounds [OF reachable_restored, of 1]
  by (simp_all add: MAX_QUEUE_SIZE_def failed_once_def)

lemma failed_thrice_state:
  "callbacks failed_thrice = []"
  "messageQueues failed_thrice =
     [(JNum 42, [\<lparr>message = volume30_command, retryCount = 3, time = 4000\<rparr>])]"
proof -
  have a: "callbacks (rounds 1 restored) = []"
    "messageQueues (rounds 1 restored) =
       [(JNum 42, [\<lparr>message = volume30_command, retryCount = 1, time = 0\<rparr>])]"
    using rounds_queue [of 0] by (simp_all add: MAX_QUEUE_SIZE_def)
  have v: "isValidTabId (JNum 42)" "validMessageFormat volume30_command"
    by (simp_all add: isValidTabId_def validMessageFormat_def volume30_command_def)
  show "callbacks failed_thrice = []"
    "messageQueues failed_thrice =
     [(JNum 42, [\<lparr>message = volume30_command, retryCount = 3, time = 4000\<rparr>])]"
    using a v
    by (simp_all add: failed_thrice_def step_def sweep_def processMessageQueue_def
        processItem_def sendMessageToTab_def sendResult_def sendMessageCallback_def Let_def
        MAX_QUEUE_SIZE_def MAX_RETRIES_def)
qed

section \<open>The command delivered to a tab\<close>

text \<open>
  Claim C10. For every tab and every record, \<^verbatim>\<open>applyVolumeToTab\<close> hands
  \<^verbatim>\<open>chrome.tabs.sendMessage\<close> exactly one message, with retry count 0. Its action is
  chosen by the record's \<open>muted\<close> flag alone: \<^verbatim>\<open>toggleMute\<close> when it is true,
  \<^verbatim>\<open>setVolume\<close> when it is false. Whatever the action, the message carries
  \<open>volume\<close>, \<open>muted\<close> and \<open>previousVolume\<close> of the record.
\<close>

theorem applyVolumeToTab_command:
  assumes "isValidTabId tabId"
  shows "\<exists>m. sent (applyVolumeToTab st tabId vd) = sent st @ [(tabId, m, 0)] \<and>
           fld m ''action'' = JStr (if truthy (muted vd) then ''toggleMute'' else ''setVolume'') \<and>
           (muted vd = JBool True \<longrightarrow> fld m ''action'' = JStr ''toggleMute'') \<and>
           (muted vd = JBool False \<longrightarrow> fld m ''action'' = JStr ''setVolume'') \<and>
           fld m ''volume'' = volume vd \<and>
           fld m ''muted'' = muted vd \<and>
           fld m ''previousVolume'' = previousVolume vd"
  using assms
  by (simp add: applyVolumeToTab_def sendMessageToTab_def validMessageFormat_def MAX_RETRIES_def)

theorem applyVolumeToTab_command_witness:
  "isValidTabId (JNum 42) \<and>
   (\<exists>m. sent (applyVolumeToTab init_state (JNum 42)
              \<lparr>volume = JNum 30, previousVolume = JNum 80, muted = JBool True,
                hasAudio = JBool True, isPlaying = JUndefined, tabUrl = JUndefined\<rparr>)
         = [(JNum 42, m, 0)] \<and>
        fld m ''action'' = JStr ''toggleMute'' \<and> fld m ''volume'' = JNum 30 \<and>
        fld m ''muted'' = JBool True \<and> fld m ''previousVolume'' = JNum 80)"
proof -
  have v: "isValidTabId (JNum 42)" by (simp add: isValidTabId_def)
  show ?thesis
    using v applyVolumeToTab_command [OF v, of init_state
        "\<lparr>volume = JNum 30, previousVolume = JNum 80, muted = JBool True,
          hasAudio = JBool True, isPlaying = JUndefined, tabUrl = JUndefined\<rparr>"]
    by (simp add: init_state_def)
qed

section \<open>Lookup order of the state cache\<close>

text \<open>
  Claim C7. \<^verbatim>\<open>getVolumeDataForTab\<close> on a tab identifier, in a reachable state:
  \<^item> an entry of the tab mapping is returned, and nothing changes;
  \<^item> otherwise an entry of the address mapping is returned: the same object is put
    under the tab identifier, so a later lookup by the tab identifier alone returns it
    too, and two writes to the store are issued (the tab key, the address key); its
    values are those it had, with \<open>tabUrl\<close> set to the address;
  \<^item> otherwise a new default record is returned, and neither mapping nor the store
    changes.
\<close>

theorem getVolumeDataForTab_lookup_order:
  assumes "reachable rt st" and "isValidTabId tabId"
  shows "(\<forall>r. tabVolumeSettings st tabId = Some r \<longrightarrow>
            getVolumeDataForTab st tabId url = (r, st)) \<and>
         (\<forall>r. tabVolumeSettings st tabId = None \<and> urlVolumeSettings st url = Some r \<longrightarrow>
            (\<exists>st'. getVolumeDataForTab st tabId url = (r, st') \<and>
              heap st' ! r = (heap st ! r)\<lparr>tabUrl := url\<rparr> \<and>
              urlVolumeSettings st' url = Some r \<and>
              tabVolumeSettings st' tabId = Some r \<and>
              getVolumeDataForTab st' tabId JUndefined = (r, st') \<and>
              storage st' = storage st @
                 [(TabKey tabId, heap st ! r), (UrlKey url, heap st' ! r)])) \<and>
         (tabVolumeSettings st tabId = None \<and> urlVolumeSettings st url = None \<longrightarrow>
            (\<exists>r st'. getVolumeDataForTab st tabId url = (r, st') \<and>
              heap st' ! r = getDefaultVolumeData \<and>
              getDefaultVolumeData = \<lparr>volume = JNum 100, previousVolume = JNum 100,
                 muted = JBool False, hasAudio = JBool True, isPlaying = JUndefined,
                 tabUrl = JUndefined\<rparr> \<and>
              tabVolumeSettings st' = tabVolumeSettings st \<and>
              urlVolumeSettings st' = urlVolumeSettings st \<and>
              storage st' = storage st))"
proof -
  have ok: "heap_ok st" by (rule reachable_heap_ok [OF assms(1)])
  have a: "\<forall>r. tabVolumeSettings st tabId = Some r \<longrightarrow>
            getVolumeDataForTab st tabId url = (r, st)"
    using assms(2) by (simp add: getVolumeDataForTab_def)
  have b: "\<exists>st'. getVolumeDataForTab st tabId url = (r, st') \<and>
              heap st' ! r = (heap st ! r)\<lparr>tabUrl := url\<rparr> \<and>
              urlVolumeSettings st' url = Some r \<and>
              tabVolumeSettings st' tabId = Some r \<and>
              getVolumeDataForTab st' tabId JUndefined = (r, st') \<and>
              storage st' = storage st @
                 [(TabKey tabId, heap st ! r), (UrlKey url, heap st' ! r)]"
    if n: "tabVolumeSettings st tabId = None" and u: "urlVolumeSettings st url = Some r" for r
  proof -
    from ok u have r: "r < length (heap st)" and t: "truthy url"
      by (auto simp: heap_ok_def)
    let ?s = "st\<lparr>tabVolumeSettings := (tabVolumeSettings st)(tabId \<mapsto> r)\<rparr>"
    have r': "r < length (heap ?s)" using r by simp
    have g: "getVolumeDataForTab st tabId url = (r, saveTabVolume ?s tabId r url)"
      using assms(2) n u t by (simp add: getVolumeDataForTab_def)
    show ?thesis
      using g r t assms(2) saveTabVolume_fields [OF assms(2) r', of url]
      by (simp add: getVolumeDataForTab_def)
  qed
  have c: "\<exists>r st'. getVolumeDataForTab st tabId url = (r, st') \<and>
              heap st' ! r = getDefaultVolumeData \<and>
              getDefaultVolumeData = \<lparr>volume = JNum 100, previousVolume = JNum 100,
                 muted = JBool False, hasAudio = JBool True, isPlaying = JUndefined,
                 tabUrl = JUndefined\<rparr> \<and>
              tabVolumeSettings st' = tabVolumeSettings st \<and>
              urlVolumeSettings st' = urlVolumeSettings st \<and>
              storage st' = storage st"
    if "tabVolumeSettings st tabId = None" "urlVolumeSettings st url = None"
    using that assms(2) by (simp add: getVolumeDataForTab_def alloc_def getDefaultVolumeData_def)
  from a b c show ?thesis by blast
qed

lemma hydrated_eval:
  "hydrated = init_state\<lparr>heap := [getDefaultVolumeData\<lparr>volume := JNum 30\<rparr>],
      urlVolumeSettings := [JStr ''http://a'' \<mapsto> 0]\<rparr>"
  by (simp add: hydrated_def step_def storageLoaded_def loadItem_def startsWith_def alloc_def
      validateVolumeData_def Let_def isValidVolume_def getDefaultVolumeData_def init_state_def)

theorem getVolumeDataForTab_lookup_order_witness:
  "reachable ''ext'' hydrated \<and> isValidTabId (JNum 7) \<and>
   tabVolumeSettings hydrated (JNum 7) = None \<and>
   urlVolumeSettings hydrated (JStr ''http://a'') = Some 0 \<and>
   (\<exists>st'. getVolumeDataForTab hydrated (JNum 7) (JStr ''http://a'') = (0, st') \<and>
      volume (heap st' ! 0) = JNum 30 \<and>
      tabVolumeSettings st' (JNum 7) = Some 0 \<and>
      getVolumeDataForTab st' (JNum 7) JUndefined = (0, st'))"
proof -
  have r: "reachable ''ext'' hydrated"
    unfolding hydrated_def by (rule reachable_step [OF reachable_init])
  have v: "isValidTabId (JNum 7)" by (simp add: isValidTabId_def)
  have n: "tabVolumeSettings hydrated (JNum 7) = None"
    and u: "urlVolumeSettings hydrated (JStr ''http://a'') = Some 0"
    and h: "volume (heap hydrated ! 0) = JNum 30"
    by (simp_all add: hydrated_eval init_state_def)
  from getVolumeDataForTab_lookup_order [OF r v, of "JStr ''http://a''"] n u
  obtain st' where "getVolumeDataForTab hydrated (JNum 7) (JStr ''http://a'') = (0, st')"
      "heap st' ! 0 = (heap hydrated ! 0)\<lparr>tabUrl := JStr ''http://a''\<rparr>"
      "tabVolumeSettings st' (JNum 7) = Some 0"
      "getVolumeDataForTab st' (JNum 7) JUndefined = (0, st')"
    by blast
  then show ?thesis using r v n u h by simp
qed

section \<open>A volume update to zero\<close>

text \<open>
  Claim C1, as the code has it. An accepted \<^verbatim>\<open>updateTabVolume\<close> request that gives
  \<^verbatim>\<open>tabId\<close> and \<^verbatim>\<open>volume: 0\<close> and neither \<^verbatim>\<open>muted\<close> nor
  \<^verbatim>\<open>previousVolume\<close> stores a record with volume 0 whose \<open>muted\<close> and
  \<open>previousVolume\<close> are those of the record the handler read: the router does not
  derive \<open>muted\<close> from the volume. The command delivered is \<^verbatim>\<open>toggleMute\<close> only if
  that record was muted already, otherwise \<^verbatim>\<open>setVolume\<close>; it carries volume 0 and
  the unchanged \<open>muted\<close> and \<open>previousVolume\<close>.
\<close>

theorem updateTabVolume_volume_zero:
  fixes st :: state and tabsQuery :: "tab list" and now :: int
  assumes "authorized rt sd"
    and "fld msg ''action'' = JStr ''updateTabVolume''"
    and "fld msg ''tabId'' = tabId" and "isValidTabId tabId"
    and "fld msg ''volume'' = JNum 0"
    and "fld msg ''muted'' = JUndefined"
    and "fld msg ''previousVolume'' = JUndefined"
    and "tabsGet tabId = Found tb"
  defines "old \<equiv> currentRecord st tabId (tab_url tb)"
  defines "st' \<equiv> onMessage rt tabsGet tabsQuery now st sd msg"
  shows "\<exists>r. tabVolumeSettings st' tabId = Some r \<and>
           volume (heap st' ! r) = JNum 0 \<and>
           muted (heap st' ! r) = muted old \<and>
           previousVolume (heap st' ! r) = previousVolume old \<and>
           sent st' = sent st @
             [(tabId,
               JObj [(''action'', JStr (if truthy (muted old) then ''toggleMute''
                                        else ''setVolume'')),
                     (''volume'', JNum 0), (''muted'', muted old),
                     (''previousVolume'', previousVolume old)],
               0)] \<and>
           responses st' = responses st @ [Success]"
proof -
  obtain r s1 where g: "getVolumeDataForTab st tabId (tab_url tb) = (r, s1)"
    by (cases "getVolumeDataForTab st tabId (tab_url tb)")
  have old: "old = heap s1 ! r" by (simp add: old_def currentRecord_def g)
  have e: "st' = updateTabVolumeCallback st tabId (JNum 0) JUndefined JUndefined tb"
    unfolding st'_def
    using onMessage_updateTabVolume [of rt sd msg tabsGet tb tabsQuery now st] assms(1-8)
    by (simp add: isValidVolume_def)
  note f = updateTabVolumeCallback_effect [OF assms(4) g, of "JNum 0" JUndefined JUndefined,
      folded e]
  show ?thesis
    using f(1,2,3,6) by (simp add: old mergeRequest_def command_def)
qed

text \<open>The theorem at the restored state, where the record of tab 42 is not muted.\<close>

theorem updateTabVolume_volume_zero_witness:
  "authorized ''ext'' popup \<and> isValidTabId (JNum 42) \<and>
   (\<exists>r. tabVolumeSettings
          (onMessage ''ext'' (\<lambda>tabId. Found tab42) [] 0 restored popup
             (JObj [(''action'', JStr ''updateTabVolume''), (''tabId'', JNum 42),
                    (''volume'', JNum 0)])) (JNum 42) = Some r \<and>
        muted (heap
          (onMessage ''ext'' (\<lambda>tabId. Found tab42) [] 0 restored popup
             (JObj [(''action'', JStr ''updateTabVolume''), (''tabId'', JNum 42),
                    (''volume'', JNum 0)])) ! r) = JBool False)"
proof -
  have v: "isValidTabId (JNum 42)" by (simp add: isValidTabId_def)
  have c: "currentRecord restored (JNum 42) u = stored42" for u
    by (simp add: currentRecord_def restored_lookup) (simp add: restored_state)
  show ?thesis
    using updateTabVolume_volume_zero [OF popup_authorized _ _ v, where
        msg = "JObj [(''action'', JStr ''updateTabVolume''), (''tabId'', JNum 42),
                     (''volume'', JNum 0)]"
        and tabsGet = "\<lambda>tabId. Found tab42" and tb = tab42 and st = restored
        and tabsQuery = "[]" and now = 0] v popup_authorized
    by (auto simp: c stored42_def)
qed

text \<open>The claim as the specification words it expects \<open>muted = true\<close> and a
  \<^verbatim>\<open>toggleMute\<close> command. At the restored state the request
  \<^verbatim>\<open>{tabId: 42, volume: 0}\<close> leaves the record unmuted and delivers
  \<^verbatim>\<open>setVolume\<close>.\<close>

theorem updateTabVolume_volume_zero_counterexample:
  "tabVolumeSettings
     (step ''ext'' restored (request [(''tabId'', JNum 42), (''volume'', JNum 0)]))
     (JNum 42) = Some 1 \<and>
   heap (step ''ext'' restored (request [(''tabId'', JNum 42), (''volume'', JNum 0)])) ! 1 =
     \<lparr>volume = JNum 0, previousVolume = JNum 80, muted = JBool False,
       hasAudio = JBool True, isPlaying = JUndefined, tabUrl = JStr ''http://a''\<rparr> \<and>
   sent (step ''ext'' restored (request [(''tabId'', JNum 42), (''volume'', JNum 0)])) =
     [(JNum 42,
       JObj [(''action'', JStr ''setVolume''), (''volume'', JNum 0),
             (''muted'', JBool False), (''previousVolume'', JNum 80)], 0)]"
  using volume_zero_run by simp

section \<open>Which fields a volume update keeps\<close>

text \<open>
  Claim C2, as the code has it. In the record that an accepted \<^verbatim>\<open>updateTabVolume\<close>
  request stores and persists, each of \<open>volume\<close>, \<open>muted\<close> and \<open>previousVolume\<close>
  is the request's value when the request gives one and the value of the record the
  handler read otherwise; \<open>isPlaying\<close> is kept; \<open>hasAudio\<close> is true whatever it
  was; \<open>tabUrl\<close> is the tab's address when it has one. The store receives the record
  under the tab key (before \<open>tabUrl\<close> is assigned) and, when the tab has an address,
  under the address key.
\<close>

theorem updateTabVolume_merge:
  fixes st :: state and tabsQuery :: "tab list" and now :: int
  assumes "authorized rt sd"
    and "fld msg ''action'' = JStr ''updateTabVolume''"
    and "fld msg ''tabId'' = tabId" and "isValidTabId tabId"
    and "fld msg ''volume'' = JUndefined \<or> isValidVolume (fld msg ''volume'')"
    and "fld msg ''previousVolume'' = JUndefined \<or> isValidVolume (fld msg ''previousVolume'')"
    and "fld msg ''muted'' = JUndefined \<or> typeof_boolean (fld msg ''muted'')"
    and "tabsGet tabId = Found tb"
  defines "old \<equiv> currentRecord st tabId (tab_url tb)"
  defines "st' \<equiv> onMessage rt tabsGet tabsQuery now st sd msg"
  shows "\<exists>r. tabVolumeSettings st' tabId = Some r \<and>
           volume (heap st' ! r) =
             (if fld msg ''volume'' = JUndefined then volume old else fld msg ''volume'') \<and>
           muted (heap st' ! r) =
             (if fld msg ''muted'' = JUndefined then muted old else fld msg ''muted'') \<and>
           previousVolume (heap st' ! r) =
             (if fld msg ''previousVolume'' = JUndefined then previousVolume old
              else fld msg ''previousVolume'') \<and>
           isPlaying (heap st' ! r) = isPlaying old \<and>
           hasAudio (heap st' ! r) = JBool True \<and>
           tabUrl (heap st' ! r) = (if truthy (tab_url tb) then tab_url tb else tabUrl old) \<and>
           (\<exists>pre. storage st' =
              pre @ (TabKey tabId, (heap st' ! r)\<lparr>tabUrl := tabUrl old\<rparr>) #
                (if truthy (tab_url tb) then [(UrlKey (tab_url tb), heap st' ! r)] else []))"
proof -
  obtain r s1 where g: "getVolumeDataForTab st tabId (tab_url tb) = (r, s1)"
    by (cases "getVolumeDataForTab st tabId (tab_url tb)")
  have old: "old = heap s1 ! r" by (simp add: old_def currentRecord_def g)
  have e: "st' = updateTabVolumeCallback st tabId (fld msg ''volume'') (fld msg ''muted'')
      (fld msg ''previousVolume'') tb"
    unfolding st'_def
    using onMessage_updateTabVolume [of rt sd msg tabsGet tb tabsQuery now st] assms(1-8)
    by simp
  note f = updateTabVolumeCallback_effect [OF assms(4) g, of "fld msg ''volume''"
      "fld msg ''muted''" "fld msg ''previousVolume''", folded e]
  show ?thesis
    using f(1,2,5) by (auto simp: old mergeRequest_def)
qed

text \<open>The theorem at the restored state, for a request that gives the volume only.\<close>

theorem updateTabVolume_merge_witness:
  "authorized ''ext'' popup \<and> isValidTabId (JNum 42) \<and>
   (\<exists>r. tabVolumeSettings
          (onMessage ''ext'' (\<lambda>tabId. Found tab42) [] 0 restored popup
             (JObj [(''action'', JStr ''updateTabVolume''), (''tabId'', JNum 42),
                    (''volume'', JNum 30)])) (JNum 42) = Some r \<and>
        volume (heap (onMessage ''ext'' (\<lambda>tabId. Found tab42) [] 0 restored popup
             (JObj [(''action'', JStr ''updateTabVolume''), (''tabId'', JNum 42),
                    (''volume'', JNum 30)])) ! r) = JNum 30 \<and>
        previousVolume (heap (onMessage ''ext'' (\<lambda>tabId. Found tab42) [] 0 restored popup
             (JObj [(''action'', JStr ''updateTabVolume''), (''tabId'', JNum 42),
                    (''volume'', JNum 30)])) ! r) = JNum 80 \<and>
        hasAudio (heap (onMessage ''ext'' (\<lambda>tabId. Found tab42) [] 0 restored popup
             (JObj [(''action'', JStr ''updateTabVolume''), (''tabId'', JNum 42),
                    (''volume'', JNum 30)])) ! r) = JBool True)"
proof -
  have v: "isValidTabId (JNum 42)" by (simp add: isValidTabId_def)
  have c: "currentRecord restored (JNum 42) u = stored42" for u
    by (simp add: currentRecord_def restored_lookup) (simp add: restored_state)
  show ?thesis
    using updateTabVolume_merge [OF popup_authorized _ _ v, where
        msg = "JObj [(''action'', JStr ''updateTabVolume''), (''tabId'', JNum 42),
                     (''volume'', JNum 30)]"
        and tabsGet = "\<lambda>tabId. Found tab42" and tb = tab42 and st = restored
        and tabsQuery = "[]" and now = 0] v popup_authorized
    by (auto simp: c stored42_def isValidVolume_def)
qed

text \<open>\<open>hasAudio\<close> is not kept: the restored record of tab 42 has
  \<open>hasAudio = false\<close>, the request \<^verbatim>\<open>{tabId: 42, volume: 30}\<close> has no such field,
  and the record stored afterwards has \<open>hasAudio = true\<close>.\<close>

theorem updateTabVolume_merge_counterexample:
  "tabVolumeSettings restored (JNum 42) = Some 0 \<and>
   hasAudio (heap restored ! 0) = JBool False \<and>
   tabVolumeSettings
     (step ''ext'' restored (request [(''tabId'', JNum 42), (''volume'', JNum 30)]))
     (JNum 42) = Some 1 \<and>
   hasAudio
     (heap (step ''ext'' restored (request [(''tabId'', JNum 42), (''volume'', JNum 30)])) ! 1)
     = JBool True"
  using volume30_run by (simp add: restored_state init_state_def stored42_def)

section \<open>Responses of the request router\<close>

text \<open>
  Claim C3, as the code has it. A message whose sender carries an identity other than the
  extension's own, or that is not an object with a truthy \<^verbatim>\<open>action\<close>, is dropped: the
  listener returns at its first two checks and the state, with its log of responses, is
  unchanged. Every other message gets exactly one response, whichever branch handles it
  and also when no branch does, provided \<^verbatim>\<open>chrome.tabs.get\<close> does not reject its
  arguments with an exception.
\<close>

theorem onMessage_one_response:
  "(\<not> authorized rt sd \<or> \<not> validMessageFormat msg \<longrightarrow>
      onMessage rt tabsGet tabsQuery now st sd msg = st) \<and>
   (authorized rt sd \<and> validMessageFormat msg \<and>
    (\<forall>e. tabsGet (fld msg ''tabId'') \<noteq> Throws e) \<longrightarrow>
      (\<exists>x. responses (onMessage rt tabsGet tabsQuery now st sd msg) = responses st @ [x]))"
proof (intro conjI impI)
  assume "\<not> authorized rt sd \<or> \<not> validMessageFormat msg"
  then show "onMessage rt tabsGet tabsQuery now st sd msg = st" by (rule onMessage_gate)
next
  assume a: "authorized rt sd \<and> validMessageFormat msg \<and>
    (\<forall>e. tabsGet (fld msg ''tabId'') \<noteq> Throws e)"
  from a responses_handleUpdateTabVolume [of tabsGet msg st]
  obtain s x where u: "handleUpdateTabVolume tabsGet st msg = Returned s"
    "responses s = responses st @ [x]" by blast
  show "\<exists>x. responses (onMessage rt tabsGet tabsQuery now st sd msg) = responses st @ [x]"
    using a u responses_handlers [of st]
    by (simp add: onMessage_def dispatch_def)
qed

text \<open>The theorem at a \<^verbatim>\<open>getAudibleTabs\<close> request of the popup.\<close>

theorem onMessage_one_response_witness:
  "authorized ''ext'' popup \<and>
   validMessageFormat (JObj [(''action'', JStr ''getAudibleTabs'')]) \<and>
   (\<exists>x. responses (onMessage ''ext'' (\<lambda>tabId. Found tab42) [] 0 init_state popup
            (JObj [(''action'', JStr ''getAudibleTabs'')])) = [x])"
proof -
  have f: "validMessageFormat (JObj [(''action'', JStr ''getAudibleTabs'')])"
    by (simp add: validMessageFormat_def)
  show ?thesis
    using onMessage_one_response [of "''ext''" popup "JObj [(''action'', JStr ''getAudibleTabs'')]"
        "\<lambda>tabId. Found tab42" "[]" 0 init_state] popup_authorized f
    by (simp add: init_state_def)
qed

text \<open>No response at all: a message without \<^verbatim>\<open>action\<close>, a message whose
  \<^verbatim>\<open>action\<close> is \<^verbatim>\<open>null\<close>, and a well-formed message of another sender.\<close>

theorem onMessage_one_response_counterexample:
  "authorized ''ext'' popup \<and>
   responses (onMessage ''ext'' (\<lambda>tabId. Found tab42) [] 0 init_state popup (JObj [])) = [] \<and>
   responses (onMessage ''ext'' (\<lambda>tabId. Found tab42) [] 0 init_state popup
                (JObj [(''action'', JNull)])) = [] \<and>
   responses (onMessage ''ext'' (\<lambda>tabId. Found tab42) [] 0 init_state stranger
                (JObj [(''action'', JStr ''getAudibleTabs'')])) = []"
  by (simp add: onMessage_def authorized_def validMessageFormat_def popup_def stranger_def
      init_state_def)

section \<open>Rejected requests\<close>

text \<open>What the router does with a message that has passed the listener's two entry
  checks.\<close>

lemma rejected_after_gate:
  fixes st :: state and tabsGet :: "jsval \<Rightarrow> tabs_get_result" and tabsQuery :: "tab list"
    and now :: int
  assumes "authorized rt sd" and "validMessageFormat msg"
  defines "st' \<equiv> onMessage rt tabsGet tabsQuery now st sd msg"
  shows "(fld msg ''action'' = JStr ''updateTabVolume'' \<and>
          (\<not> isValidTabId (fld msg ''tabId'') \<or>
           (fld msg ''volume'' \<noteq> JUndefined \<and> \<not> isValidVolume (fld msg ''volume'')) \<or>
           (fld msg ''previousVolume'' \<noteq> JUndefined \<and>
            \<not> isValidVolume (fld msg ''previousVolume'')) \<or>
           (fld msg ''muted'' \<noteq> JUndefined \<and> \<not> typeof_boolean (fld msg ''muted''))) \<longrightarrow>
          (\<exists>reason. st' = st\<lparr>responses := responses st @ [Failure reason]\<rparr>)) \<and>
         (fld msg ''action'' \<in> {JStr ''contentScriptReady'', JStr ''getAudioStatus'',
                                 JStr ''updateTabStatus''} \<and>
          \<not> isValidTabId (senderTabId sd) \<longrightarrow>
          (\<exists>reason. st' = st\<lparr>responses := responses st @ [Failure reason]\<rparr>)) \<and>
         (fld msg ''action'' = JStr ''updateTabStatus'' \<and>
          \<not> typeof_boolean (fld msg ''hasAudio'') \<longrightarrow>
          (\<exists>reason. st' = st\<lparr>responses := responses st @ [Failure reason]\<rparr>)) \<and>
         (fld msg ''action'' \<notin> {JStr ''contentScriptReady'', JStr ''getAudibleTabs'',
                                 JStr ''updateTabVolume'', JStr ''getAudioStatus'',
                                 JStr ''updateTabStatus''} \<longrightarrow>
          st' = st\<lparr>responses := responses st @ [Failure ''Unknown action'']\<rparr>)"
proof -
  have om: "st' = (case dispatch tabsGet tabsQuery now st sd msg of
                     Returned s \<Rightarrow> s
                   | NoMatch \<Rightarrow> respond st (Failure ''Unknown action'')
                   | Threw e \<Rightarrow> respond (respond st (Failure e)) (Failure ''Unknown action''))"
    using assms(1,2) by (simp add: st'_def onMessage_def)
  have a: "\<exists>reason. st' = st\<lparr>responses := responses st @ [Failure reason]\<rparr>"
    if "fld msg ''action'' = JStr ''updateTabVolume''"
      and "\<not> isValidTabId (fld msg ''tabId'') \<or>
           (fld msg ''volume'' \<noteq> JUndefined \<and> \<not> isValidVolume (fld msg ''volume'')) \<or>
           (fld msg ''previousVolume'' \<noteq> JUndefined \<and>
            \<not> isValidVolume (fld msg ''previousVolume'')) \<or>
           (fld msg ''muted'' \<noteq> JUndefined \<and> \<not> typeof_boolean (fld msg ''muted''))"
  proof -
    have d: "dispatch tabsGet tabsQuery now st sd msg = handleUpdateTabVolume tabsGet st msg"
      using that(1) by (simp add: dispatch_def)
    have "\<exists>reason. handleUpdateTabVolume tabsGet st msg = Returned (respond st (Failure reason))"
      using that(2) by (auto simp: handleUpdateTabVolume_def Let_def)
    then show ?thesis by (auto simp: om d respond_def)
  qed
  have b: "\<exists>reason. st' = st\<lparr>responses := responses st @ [Failure reason]\<rparr>"
    if "fld msg ''action'' \<in> {JStr ''contentScriptReady'', JStr ''getAudioStatus'',
                                 JStr ''updateTabStatus''}"
      and "\<not> isValidTabId (senderTabId sd)"
  proof (cases "truthy (senderTabId sd)")
    case True
    have "dispatch tabsGet tabsQuery now st sd msg = Returned (respond st (Failure ''Invalid tabId''))"
      using that True
      by (auto simp: dispatch_def handleContentScriptReady_def handleGetAudioStatus_def
          handleUpdateTabStatus_def)
    then show ?thesis by (auto simp: om respond_def)
  next
    case False
    have "dispatch tabsGet tabsQuery now st sd msg = NoMatch"
      using that(1) False by (auto simp: dispatch_def)
    then show ?thesis by (auto simp: om respond_def)
  qed
  have c: "\<exists>reason. st' = st\<lparr>responses := responses st @ [Failure reason]\<rparr>"
    if "fld msg ''action'' = JStr ''updateTabStatus''"
      and "\<not> typeof_boolean (fld msg ''hasAudio'')"
  proof (cases "isValidTabId (senderTabId sd)")
    case False
    then show ?thesis using b that(1) by simp
  next
    case True
    then have "truthy (senderTabId sd)"
      by (cases "senderTabId sd") (simp_all add: isValidTabId_def)
    then have "dispatch tabsGet tabsQuery now st sd msg =
        Returned (respond st (Failure ''Invalid hasAudio value''))"
      using that True by (simp add: dispatch_def handleUpdateTabStatus_def)
    then show ?thesis by (auto simp: om respond_def)
  qed
  have d: "st' = st\<lparr>responses := responses st @ [Failure ''Unknown action'']\<rparr>"
    if "fld msg ''action'' \<notin> {JStr ''contentScriptReady'', JStr ''getAudibleTabs'',
                                 JStr ''updateTabVolume'', JStr ''getAudioStatus'',
                                 JStr ''updateTabStatus''}"
  proof -
    have "dispatch tabsGet tabsQuery now st sd msg = NoMatch"
      using that by (simp add: dispatch_def)
    then show ?thesis by (simp add: om respond_def)
  qed
  from a b c d show ?thesis by blast
qed

text \<open>
  Claim C4, as the code has it. A message whose sender carries another identity than
  the extension's, or that is not an object with a truthy \<^verbatim>\<open>action\<close> (the empty string
  is not truthy), gets no response and changes nothing. For every other message:
  \<^item> an \<^verbatim>\<open>updateTabVolume\<close> request whose \<^verbatim>\<open>tabId\<close> is invalid, or whose
    \<^verbatim>\<open>volume\<close> or \<^verbatim>\<open>previousVolume\<close> is given and not a number in \<open>[0, 100]\<close>, or
    whose \<^verbatim>\<open>muted\<close> is given and not a boolean;
  \<^item> a \<^verbatim>\<open>contentScriptReady\<close>, \<^verbatim>\<open>getAudioStatus\<close> or \<^verbatim>\<open>updateTabStatus\<close>
    request whose sender has no valid tab identifier;
  \<^item> an \<^verbatim>\<open>updateTabStatus\<close> request whose \<^verbatim>\<open>hasAudio\<close> is not a boolean
  \<^noindent> is answered by one \<^verbatim>\<open>{success: false, error: reason}\<close> and changes nothing
  else: the state afterwards is the state before with that response logged, so both
  mappings, the records and the store are as they were. A message whose action is none
  of the five is answered \<^verbatim>\<open>{success: false, error: "Unknown action"}\<close>, in the same
  way.
\<close>

theorem malformed_request_rejected:
  fixes st :: state and tabsGet :: "jsval \<Rightarrow> tabs_get_result" and tabsQuery :: "tab list"
    and now :: int and rt :: string and sd :: sender and msg :: jsval
  defines "st' \<equiv> onMessage rt tabsGet tabsQuery now st sd msg"
  shows "(\<not> authorized rt sd \<or> \<not> validMessageFormat msg \<longrightarrow> st' = st) \<and>
         (authorized rt sd \<and> validMessageFormat msg \<longrightarrow>
            (fld msg ''action'' = JStr ''updateTabVolume'' \<and>
             (\<not> isValidTabId (fld msg ''tabId'') \<or>
              (fld msg ''volume'' \<noteq> JUndefined \<and> \<not> isValidVolume (fld msg ''volume'')) \<or>
              (fld msg ''previousVolume'' \<noteq> JUndefined \<and>
               \<not> isValidVolume (fld msg ''previousVolume'')) \<or>
              (fld msg ''muted'' \<noteq> JUndefined \<and> \<not> typeof_boolean (fld msg ''muted''))) \<longrightarrow>
             (\<exists>reason. st' = st\<lparr>responses := responses st @ [Failure reason]\<rparr>)) \<and>
            (fld msg ''action'' \<in> {JStr ''contentScriptReady'', JStr ''getAudioStatus'',
                                    JStr ''updateTabStatus''} \<and>
             \<not> isValidTabId (senderTabId sd) \<longrightarrow>
             (\<exists>reason. st' = st\<lparr>responses := responses st @ [Failure reason]\<rparr>)) \<and>
            (fld msg ''action'' = JStr ''updateTabStatus'' \<and>
             \<not> typeof_boolean (fld msg ''hasAudio'') \<longrightarrow>
             (\<exists>reason. st' = st\<lparr>responses := responses st @ [Failure reason]\<rparr>)) \<and>
            (fld msg ''action'' \<notin> {JStr ''contentScriptReady'', JStr ''getAudibleTabs'',
                                    JStr ''updateTabVolume'', JStr ''getAudioStatus'',
                                    JStr ''updateTabStatus''} \<longrightarrow>
             st' = st\<lparr>responses := responses st @ [Failure ''Unknown action'']\<rparr>))"
proof -
  have g: "st' = st" if "\<not> authorized rt sd \<or> \<not> validMessageFormat msg"
    unfolding st'_def using that by (rule onMessage_gate)
  show ?thesis
    using g rejected_after_gate [of rt sd msg tabsGet tabsQuery now st, folded st'_def]
    by blast
qed

text \<open>The theorem at a request with volume 150, at a request with an action the router
  does not know, and at a message of another sender.\<close>

theorem malformed_request_rejected_witness:
  "authorized ''ext'' popup \<and>
   validMessageFormat (JObj [(''action'', JStr ''updateTabVolume''), (''tabId'', JNum 42),
                             (''volume'', JNum 150)]) \<and>
   \<not> isValidVolume (JNum 150) \<and>
   (\<exists>reason. onMessage ''ext'' (\<lambda>tabId. Found tab42) [] 0 restored popup
       (JObj [(''action'', JStr ''updateTabVolume''), (''tabId'', JNum 42),
              (''volume'', JNum 150)])
      = restored\<lparr>responses := responses restored @ [Failure reason]\<rparr>) \<and>
   validMessageFormat (JObj [(''action'', JStr ''setBalance'')]) \<and>
   onMessage ''ext'' (\<lambda>tabId. Found tab42) [] 0 restored popup
       (JObj [(''action'', JStr ''setBalance'')])
      = restored\<lparr>responses := responses restored @ [Failure ''Unknown action'']\<rparr> \<and>
   \<not> authorized ''ext'' stranger \<and>
   onMessage ''ext'' (\<lambda>tabId. Found tab42) [] 0 restored stranger
       (JObj [(''action'', JStr ''setBalance'')]) = restored"
proof -
  have f: "validMessageFormat (JObj [(''action'', JStr ''updateTabVolume''), (''tabId'', JNum 42),
                             (''volume'', JNum 150)])"
    "validMessageFormat (JObj [(''action'', JStr ''setBalance'')])"
    by (simp_all add: validMessageFormat_def)
  have n: "\<not> isValidVolume (JNum 150)" by (simp add: isValidVolume_def)
  have s: "\<not> authorized ''ext'' stranger" by (simp add: authorized_def stranger_def)
  show ?thesis
    using malformed_request_rejected [where st = restored and rt = "''ext''" and sd = popup
        and msg = "JObj [(''action'', JStr ''updateTabVolume''), (''tabId'', JNum 42),
                         (''volume'', JNum 150)]"
        and tabsGet = "\<lambda>tabId. Found tab42" and tabsQuery = "[]" and now = 0]
      malformed_request_rejected [where st = restored and rt = "''ext''" and sd = popup
        and msg = "JObj [(''action'', JStr ''setBalance'')]"
        and tabsGet = "\<lambda>tabId. Found tab42" and tabsQuery = "[]" and now = 0]
      malformed_request_rejected [where st = restored and rt = "''ext''" and sd = stranger
        and msg = "JObj [(''action'', JStr ''setBalance'')]"
        and tabsGet = "\<lambda>tabId. Found tab42" and tabsQuery = "[]" and now = 0]
      popup_authorized f n s
    by simp
qed

text \<open>No response, where the claim as the specification words it expects one: the
  action is the empty string, which is none of the five; and an
  \<^verbatim>\<open>updateTabVolume\<close> request with the invalid \<^verbatim>\<open>tabId\<close> 0 comes from another
  sender.\<close>

theorem malformed_request_rejected_counterexample:
  "fld (JObj [(''action'', JStr [])]) ''action'' = JStr [] \<and>
   authorized ''ext'' popup \<and>
   onMessage ''ext'' (\<lambda>tabId. Found tab42) [] 0 restored popup
     (JObj [(''action'', JStr [])]) = restored \<and>
   \<not> isValidTabId (JNum 0) \<and>
   onMessage ''ext'' (\<lambda>tabId. Found tab42) [] 0 restored stranger
     (JObj [(''action'', JStr ''updateTabVolume''), (''tabId'', JNum 0)]) = restored"
  by (simp add: onMessage_def authorized_def validMessageFormat_def popup_def stranger_def
      isValidTabId_def)

section \<open>Validation of the volume\<close>




section \<open>Volumes stay in range\<close>




section \<open>The delivery queue is bounded\<close>

text \<open>
  Claim C8. In every reachable state the queue of every tab holds at most 50 entries.
  When a delivery fails and the queue of its tab holds 50, the callback drops the new
  entry: the queue map is unchanged, no entry is evicted, and a warning is logged. Below
  50 the entry is appended.
\<close>

theorem queue_never_exceeds_cap:
  assumes "reachable rt st" and "map_of (messageQueues st) tabId = Some q"
  shows "length q \<le> 50 \<and>
         (length q = 50 \<longrightarrow>
            sendMessageCallback st tabId m rc True now =
              st\<lparr>warnings := warnings st @ [QueueOverflow tabId]\<rparr>) \<and>
         (length q < 50 \<longrightarrow>
            sendMessageCallback st tabId m rc True now =
              st\<lparr>messageQueues := AList.update tabId
                    (q @ [\<lparr>message = m, retryCount = rc + 1, time = now\<rparr>])
                    (messageQueues st)\<rparr>)"
proof -
  have "length q \<le> MAX_QUEUE_SIZE"
    by (rule queues_ok_lookup [OF reachable_queues_ok [OF assms(1)] assms(2)])
  then show ?thesis
    using assms(2) by (simp add: sendMessageCallback_def Let_def MAX_QUEUE_SIZE_def warn_def)
qed

text \<open>The theorem at a state whose queue for tab 42 is full.\<close>

theorem queue_never_exceeds_cap_witness:
  "reachable ''ext'' full_queue \<and>
   map_of (messageQueues full_queue) (JNum 42) =
     Some (replicate 50 \<lparr>message = volume30_command, retryCount = 1, time = 0\<rparr>) \<and>
   length (replicate 50 \<lparr>message = volume30_command, retryCount = 1, time = 0\<rparr>) = 50 \<and>
   sendMessageCallback full_queue (JNum 42) volume30_command 0 True 7 =
     full_queue\<lparr>warnings := warnings full_queue @ [QueueOverflow (JNum 42)]\<rparr> \<and>
   messageQueues (sendMessageCallback full_queue (JNum 42) volume30_command 0 True 7) =
     messageQueues full_queue"
proof -
  have r: "reachable ''ext'' full_queue"
    unfolding full_queue_def by (rule reachable_rounds [OF reachable_restored])
  have m: "map_of (messageQueues full_queue) (JNum 42) =
     Some (replicate 50 \<lparr>message = volume30_command, retryCount = 1, time = 0\<rparr>)"
    by (simp add: full_queue_state)
  show ?thesis
    using queue_never_exceeds_cap [OF r m, of volume30_command 0 7] r m by simp
qed

section \<open>Expiry and retry of queued entries\<close>

text \<open>
  Claim C9, as the code has it. Times are in milliseconds, a time unit is 1000. A sweep
  at time \<open>now\<close> leaves in the queue of a tab exactly the entries enqueued less than one
  unit ago, in their order. It re-sends exactly the entries whose age is at least one
  unit and less than 60 units and whose retry count is below 3; an entry of that age
  that has been tried three times is dropped without being sent. An entry whose age is
  60 units or more is neither sent nor kept. The same holds for
  \<^verbatim>\<open>processMessageQueue\<close> run for one tab.
\<close>

theorem sweep_partitions_queue:
  assumes "reachable rt st" and "map_of (messageQueues st) tabId = Some queue"
  shows "map_of (messageQueues (sweep st now)) tabId = Some [e \<leftarrow> queue. now - time e < 1000] \<and>
         sent (sweep st now) =
           sent st @ concat (map (\<lambda>kq. map (\<lambda>e. (fst kq, message e, retryCount e))
             [e \<leftarrow> snd kq. 1000 \<le> now - time e \<and> now - time e < 60000 \<and> retryCount e < 3])
             (messageQueues st)) \<and>
         map_of (messageQueues (processMessageQueue st tabId now)) tabId =
           Some [e \<leftarrow> queue. now - time e < 1000] \<and>
         sent (processMessageQueue st tabId now) =
           sent st @ map (\<lambda>e. (tabId, message e, retryCount e))
             [e \<leftarrow> queue. 1000 \<le> now - time e \<and> now - time e < 60000 \<and> retryCount e < 3]"
proof -
  have q: "queues_ok st" by (rule reachable_queues_ok [OF assms(1)])
  have m: "msgs_ok st" by (rule reachable_msgs_ok [OF assms(1)])
  show ?thesis
    using sweep_queue [OF q m assms(2), of now] sweep_sent [OF q m, of now]
      processMessageQueue_effect [OF q m assms(2), of now]
    by (simp add: MAX_RETRIES_def)
qed

text \<open>The theorem after one failed delivery at time 0: swept at 500, at 2000 and at
  60000.\<close>

theorem sweep_partitions_queue_witness:
  "reachable ''ext'' failed_once \<and>
   map_of (messageQueues failed_once) (JNum 42) =
     Some [\<lparr>message = volume30_command, retryCount = 1, time = 0\<rparr>] \<and>
   map_of (messageQueues (sweep failed_once 500)) (JNum 42) =
     Some [\<lparr>message = volume30_command, retryCount = 1, time = 0\<rparr>] \<and>
   sent (sweep failed_once 500) = sent failed_once \<and>
   map_of (messageQueues (sweep failed_once 2000)) (JNum 42) = Some [] \<and>
   sent (sweep failed_once 2000) = sent failed_once @ [(JNum 42, volume30_command, 1)] \<and>
   map_of (messageQueues (sweep failed_once 60000)) (JNum 42) = Some [] \<and>
   sent (sweep failed_once 60000) = sent failed_once"
proof -
  have m: "map_of (messageQueues failed_once) (JNum 42) =
     Some [\<lparr>message = volume30_command, retryCount = 1, time = 0\<rparr>]"
    by (simp add: failed_once_state)
  show ?thesis
    using sweep_partitions_queue [OF failed_once_state(1) m, of 500]
      sweep_partitions_queue [OF failed_once_state(1) m, of 2000]
      sweep_partitions_queue [OF failed_once_state(1) m, of 60000]
    by (simp add: failed_once_state)
qed

text \<open>An entry aged two units is not re-sent: after three failed deliveries the entry
  has retry count 3, and the sweep at 6000 removes it from the queue and sends nothing.\<close>

theorem sweep_partitions_queue_counterexample:
  "map_of (messageQueues failed_thrice) (JNum 42) =
     Some [\<lparr>message = volume30_command, retryCount = 3, time = 4000\<rparr>] \<and>
   (1000 :: int) \<le> 6000 - 4000 \<and> (6000 :: int) - 4000 < 60000 \<and>
   sent (sweep failed_thrice 6000) = sent failed_thrice \<and>
   map_of (messageQueues (sweep failed_thrice 6000)) (JNum 42) = Some []"
proof -
  have v: "isValidTabId (JNum 42)" "validMessageFormat volume30_command"
    by (simp_all add: isValidTabId_def validMessageFormat_def volume30_command_def)
  show ?thesis
    using v
    by (simp add: failed_thrice_state sweep_def processMessageQueue_def processItem_def
        sendMessageToTab_def MAX_QUEUE_SIZE_def MAX_RETRIES_def)
qed

end
